theory Spec2Isabelle
  imports Complex_Main "HOL-Library.Sublist"
begin

section \<open>Geo-math: the haversine distance\<close>

text \<open>
  The employee tracker computes great-circle distances in three places with the same
  text: \<open>calculateDistance\<close> of the mobile app's location service, and the methods
  \<open>isPointInside\<close> and \<open>getDistanceFromCenter\<close> of the backend's GeofenceRegion model.

  JavaScript numbers are modelled as real numbers, so every arithmetic operation below is
  exact; rounding is outside this model. The one non-number a JavaScript number can be,
  NaN, is modelled as \<open>None\<close>: \<open>Math.sqrt\<close> of a negative number is NaN, NaN
  propagates through multiplication, and every comparison with NaN is false.
\<close>

type_synonym js_number = "real option"

definition Math_sqrt :: "real \<Rightarrow> js_number" where
  "Math_sqrt x = (if x < 0 then None else Some (sqrt x))"

text \<open>\<open>Math.atan2(y, x)\<close> on finite numbers: the angle of the point \<open>(x, y)\<close>.\<close>

definition Math_atan2 :: "real \<Rightarrow> real \<Rightarrow> real" where
  "Math_atan2 y x =
     (if 0 < x then arctan (y / x)
      else if x < 0 then (if 0 \<le> y then arctan (y / x) + pi else arctan (y / x) - pi)
      else if 0 < y then pi / 2
      else if y < 0 then - (pi / 2)
      else 0)"

text \<open>\<open>distance <= radius\<close>, false when the distance is NaN.\<close>

definition js_le :: "js_number \<Rightarrow> real \<Rightarrow> bool" where
  "js_le d r = (case d of None \<Rightarrow> False | Some x \<Rightarrow> x \<le> r)"

text \<open>Mobile app, \<open>LocationService.calculateDistance(lat1, lon1, lat2, lon2)\<close>.\<close>

definition calculateDistance :: "real \<Rightarrow> real \<Rightarrow> real \<Rightarrow> real \<Rightarrow> js_number" where
  "calculateDistance lat1 lon1 lat2 lon2 =
     (let R = 6371000;
          phi1 = lat1 * pi / 180;
          phi2 = lat2 * pi / 180;
          dphi = (lat2 - lat1) * pi / 180;
          dlambda = (lon2 - lon1) * pi / 180;
          a = sin (dphi / 2) * sin (dphi / 2) +
              cos phi1 * cos phi2 * sin (dlambda / 2) * sin (dlambda / 2)
      in case Math_sqrt a of
           None \<Rightarrow> None
         | Some sa \<Rightarrow>
             (case Math_sqrt (1 - a) of
                None \<Rightarrow> None
              | Some sb \<Rightarrow> Some (R * (2 * Math_atan2 sa sb))))"

text \<open>
  The coordinates of a point, and a device location, which extends them. The four
  further properties of a location are numbers that the platform may report as
  \<open>null\<close>, and that a JSON object may lack: \<open>Undefined\<close> is a missing property,
  \<open>Null\<close> the value \<open>null\<close>.
\<close>

record coords =
  latitude :: real
  longitude :: real

datatype opt_number = Undefined | Null | Num real

record location = coords +
  accuracy :: opt_number
  altitude :: opt_number
  heading :: opt_number
  speed :: opt_number

text \<open>
  A geofence region, as the backend schema declares it and as the mobile app receives it
  from \<open>GET /api/geofence/regions\<close>. User ids (Mongo ObjectIds) are strings.
\<close>

type_synonym user_id = string

record geofence_region =
  regionId :: string
  name :: string
  center :: coords
  radius :: real
  isActive :: bool
  allowedUsers :: "user_id list"

text \<open>Backend, \<open>geofenceRegionSchema.methods.getDistanceFromCenter\<close>.\<close>

definition getDistanceFromCenter :: "geofence_region \<Rightarrow> real \<Rightarrow> real \<Rightarrow> js_number" where
  "getDistanceFromCenter this lat lon =
     (let R = 6371000;
          phi1 = latitude (center this) * pi / 180;
          phi2 = lat * pi / 180;
          dphi = (lat - latitude (center this)) * pi / 180;
          dlambda = (lon - longitude (center this)) * pi / 180;
          a = sin (dphi / 2) * sin (dphi / 2) +
              cos phi1 * cos phi2 * sin (dlambda / 2) * sin (dlambda / 2)
      in case Math_sqrt a of
           None \<Rightarrow> None
         | Some sa \<Rightarrow>
             (case Math_sqrt (1 - a) of
                None \<Rightarrow> None
              | Some sb \<Rightarrow> Some (R * (2 * Math_atan2 sa sb))))"

text \<open>Backend, \<open>geofenceRegionSchema.methods.isPointInside\<close>.\<close>

definition isPointInside :: "geofence_region \<Rightarrow> real \<Rightarrow> real \<Rightarrow> bool" where
  "isPointInside this lat lon =
     (let R = 6371000;
          phi1 = latitude (center this) * pi / 180;
          phi2 = lat * pi / 180;
          dphi = (lat - latitude (center this)) * pi / 180;
          dlambda = (lon - longitude (center this)) * pi / 180;
          a = sin (dphi / 2) * sin (dphi / 2) +
              cos phi1 * cos phi2 * sin (dlambda / 2) * sin (dlambda / 2);
          distance = (case Math_sqrt a of
                        None \<Rightarrow> None
                      | Some sa \<Rightarrow>
                          (case Math_sqrt (1 - a) of
                             None \<Rightarrow> None
                           | Some sb \<Rightarrow> Some (R * (2 * Math_atan2 sa sb))))
      in js_le distance (radius this))"

text \<open>Backend, \<open>geofenceRegionSchema.methods.isUserAllowed\<close>.\<close>

definition isUserAllowed :: "geofence_region \<Rightarrow> user_id \<Rightarrow> bool" where
  "isUserAllowed this userId =
     (length (allowedUsers this) = 0 \<or> userId \<in> set (allowedUsers this))"

section \<open>Mobile app: the transition detector\<close>

text \<open>
  \<open>LocationService\<close> keeps the registry snapshot \<open>geofenceRegions\<close> (an array) and
  \<open>lastKnownRegions\<close>, a JavaScript \<open>Set\<close> of region ids. A \<open>Set\<close> iterates in
  insertion order, so it is a list without duplicates here; \<open>Set_add\<close> is its \<open>add\<close>
  and membership in the list is its \<open>has\<close>.
\<close>

record location_service =
  geofenceRegions :: "geofence_region list"
  lastKnownRegions :: "string list"

definition Set_add :: "string list \<Rightarrow> string \<Rightarrow> string list" where
  "Set_add s x = (if x \<in> set s then s else s @ [x])"

text \<open>The constructor's initial state.\<close>

definition new_LocationService :: location_service where
  "new_LocationService = \<lparr>geofenceRegions = [], lastKnownRegions = []\<rparr>"

text \<open>
  \<open>loadGeofenceRegions\<close>: the registry becomes \<open>response.regions || []\<close>, and the
  empty array when the request fails.
\<close>

datatype regions_response = FetchError | Fetched "geofence_region list option"

definition loadGeofenceRegions :: "regions_response \<Rightarrow> location_service \<Rightarrow> location_service" where
  "loadGeofenceRegions response this =
     (case response of
        Fetched (Some regions) \<Rightarrow> this\<lparr>geofenceRegions := regions\<rparr>
      | Fetched None \<Rightarrow> this\<lparr>geofenceRegions := []\<rparr>
      | FetchError \<Rightarrow> this\<lparr>geofenceRegions := []\<rparr>)"

text \<open>
  An emitted event is one call \<open>handleGeofenceEvent(eventType, region, location)\<close>;
  the record holds the call's three arguments.
\<close>

datatype event_type = Enter | Exit

record geofence_event =
  eventType :: event_type
  region :: geofence_region
  sample :: location

text \<open>
  The first loop of \<open>checkGeofenceEvents\<close>, over the registry: it builds
  \<open>currentRegions\<close> and emits an enter event for each region that contains the sample
  and whose id is not in \<open>lastKnownRegions\<close>. The result is the final
  \<open>currentRegions\<close> and the events in the order of the calls.
\<close>

fun check_entries ::
  "string list \<Rightarrow> location \<Rightarrow> geofence_region list \<Rightarrow> string list
     \<Rightarrow> string list \<times> geofence_event list" where
  "check_entries lastKnown loc [] currentRegions = (currentRegions, [])"
| "check_entries lastKnown loc (r # rest) currentRegions =
     (let distance = calculateDistance (latitude loc) (longitude loc)
                       (latitude (center r)) (longitude (center r));
          isInside = js_le distance (radius r);
          rid = regionId r
      in if isInside then
           (let emitted = (if rid \<notin> set lastKnown
                           then [\<lparr>eventType = Enter, region = r, sample = loc\<rparr>] else []);
                (cur, evs) = check_entries lastKnown loc rest (Set_add currentRegions rid)
            in (cur, emitted @ evs))
         else check_entries lastKnown loc rest currentRegions)"

text \<open>
  The second loop, over \<open>lastKnownRegions\<close>: an id that is not in \<open>currentRegions\<close>
  is looked up in the registry with \<open>find\<close>, and an exit event is emitted only if a
  region is found.
\<close>

fun check_exits ::
  "geofence_region list \<Rightarrow> string list \<Rightarrow> location \<Rightarrow> string list \<Rightarrow> geofence_event list" where
  "check_exits regions currentRegions loc [] = []"
| "check_exits regions currentRegions loc (rid # rest) =
     (if rid \<notin> set currentRegions then
        (case find (\<lambda>r. regionId r = rid) regions of
           Some r \<Rightarrow> \<lparr>eventType = Exit, region = r, sample = loc\<rparr>
                       # check_exits regions currentRegions loc rest
         | None \<Rightarrow> check_exits regions currentRegions loc rest)
      else check_exits regions currentRegions loc rest)"

text \<open>
  \<open>checkGeofenceEvents(location)\<close>: both loops, then
  \<open>lastKnownRegions = currentRegions\<close>. Nothing in the body throws on a registry of
  well-formed regions (\<open>handleGeofenceEvent\<close> catches its own errors), so the
  \<open>catch\<close> branch is not reached. This is a call that runs to its end with no other
  call in between; the function suspends at every \<open>await handleGeofenceEvent\<close>, and
  the calls that overlap there are modelled further below (\<open>exec\<close>). The events are
  returned in the order of the calls of \<open>handleGeofenceEvent\<close>.
\<close>

definition checkGeofenceEvents ::
  "location_service \<Rightarrow> location \<Rightarrow> location_service \<times> geofence_event list" where
  "checkGeofenceEvents this loc =
     (let (currentRegions, entries) =
            check_entries (lastKnownRegions this) loc (geofenceRegions this) [];
          exits = check_exits (geofenceRegions this) currentRegions loc (lastKnownRegions this)
      in (this\<lparr>lastKnownRegions := currentRegions\<rparr>, entries @ exits))"

text \<open>
  What happens to the service over time: a location sample arrives
  (\<open>handleLocationUpdate\<close>, which calls \<open>checkGeofenceEvents\<close>), or the registry is
  loaded again. \<open>run\<close> is the course of the service when every detection cycle ends
  before the next step begins; it returns the final state and all emitted events in
  order. The location callback does not wait for \<open>handleLocationUpdate\<close>, so cycles
  may also overlap: \<open>exec\<close> below covers every interleaving, and agrees with \<open>run\<close>
  on the schedules without overlap.
\<close>

datatype service_step = Sample location | Load regions_response

fun run :: "location_service \<Rightarrow> service_step list \<Rightarrow> location_service \<times> geofence_event list" where
  "run this [] = (this, [])"
| "run this (Sample loc # steps) =
     (let (this', evs) = checkGeofenceEvents this loc;
          (this'', evs') = run this' steps
      in (this'', evs @ evs'))"
| "run this (Load response # steps) = run (loadGeofenceRegions response this) steps"

text \<open>The kinds of the events emitted for the zone with id \<open>z\<close>, in order.\<close>

definition events_for :: "string \<Rightarrow> geofence_event list \<Rightarrow> event_type list" where
  "events_for z evs = map eventType (filter (\<lambda>e. regionId (region e) = z) evs)"

text \<open>No two consecutive events of the same kind.\<close>

fun alternating :: "event_type list \<Rightarrow> bool" where
  "alternating [] = True"
| "alternating [e] = True"
| "alternating (e # e' # es) = (e \<noteq> e' \<and> alternating (e' # es))"

fun is_Sample :: "service_step \<Rightarrow> bool" where
  "is_Sample (Sample loc) = True"
| "is_Sample (Load response) = False"

subsection \<open>Detection cycles that overlap\<close>

text \<open>
  \<open>checkGeofenceEvents\<close> is an async function. It runs without interruption up to a
  call \<open>await this.handleGeofenceEvent(...)\<close>, where it emits the event and suspends
  until the request of \<open>logAttendance\<close> has settled; meanwhile other location
  callbacks and registry loads may run. What a suspended call still has to do is its
  continuation: in the first loop, the regions that the array iterator has not yet
  visited and \<open>currentRegions\<close>; in the second loop, the ids that the iterator of the
  set has not yet visited and \<open>currentRegions\<close>. The array and the set that the loops
  iterate are the objects read when the loop began (neither is mutated afterwards), while
  \<open>this.lastKnownRegions.has\<close>, \<open>this.geofenceRegions.find\<close> and the final
  assignment use the fields as they are when the call runs.
\<close>

datatype continuation =
    In_entries location "geofence_region list" "string list"
  | In_exits location "string list" "string list"

datatype cycle_result = Suspended geofence_event continuation | Finished location_service

text \<open>The second loop and the final assignment, up to the next suspension.\<close>

fun resume_exits ::
  "location_service \<Rightarrow> location \<Rightarrow> string list \<Rightarrow> string list \<Rightarrow> cycle_result" where
  "resume_exits this loc [] currentRegions =
     Finished (this\<lparr>lastKnownRegions := currentRegions\<rparr>)"
| "resume_exits this loc (rid # rest) currentRegions =
     (if rid \<notin> set currentRegions then
        (case find (\<lambda>r. regionId r = rid) (geofenceRegions this) of
           Some r \<Rightarrow> Suspended \<lparr>eventType = Exit, region = r, sample = loc\<rparr>
                       (In_exits loc rest currentRegions)
         | None \<Rightarrow> resume_exits this loc rest currentRegions)
      else resume_exits this loc rest currentRegions)"

text \<open>
  The first loop, up to the next suspension; at its end the second loop begins on the
  set that \<open>lastKnownRegions\<close> holds at that moment.
\<close>

fun resume_entries ::
  "location_service \<Rightarrow> location \<Rightarrow> geofence_region list \<Rightarrow> string list \<Rightarrow> cycle_result" where
  "resume_entries this loc [] currentRegions =
     resume_exits this loc (lastKnownRegions this) currentRegions"
| "resume_entries this loc (r # rest) currentRegions =
     (let distance = calculateDistance (latitude loc) (longitude loc)
                       (latitude (center r)) (longitude (center r));
          isInside = js_le distance (radius r);
          rid = regionId r
      in if isInside then
           (if rid \<notin> set (lastKnownRegions this)
            then Suspended \<lparr>eventType = Enter, region = r, sample = loc\<rparr>
                   (In_entries loc rest (Set_add currentRegions rid))
            else resume_entries this loc rest (Set_add currentRegions rid))
         else resume_entries this loc rest currentRegions)"

definition start_cycle :: "location_service \<Rightarrow> location \<Rightarrow> cycle_result" where
  "start_cycle this loc = resume_entries this loc (geofenceRegions this) []"

fun resume :: "location_service \<Rightarrow> continuation \<Rightarrow> cycle_result" where
  "resume this (In_entries loc rest currentRegions) = resume_entries this loc rest currentRegions"
| "resume this (In_exits loc rest currentRegions) = resume_exits this loc rest currentRegions"

text \<open>
  The app with its suspended calls. A schedule is a list of steps of the service and of
  resumptions: \<open>Resume i\<close> continues the \<open>i\<close>-th suspended call (and does nothing
  if there is none). A call that suspends emits its event and joins the suspended calls;
  a call that finishes has assigned \<open>lastKnownRegions\<close>.
\<close>

record app =
  service :: location_service
  pending :: "continuation list"

datatype scheduled = Do service_step | Resume nat

definition settle ::
  "app \<Rightarrow> continuation list \<Rightarrow> cycle_result \<Rightarrow> app \<times> geofence_event list" where
  "settle st others res =
     (case res of
        Suspended ev k \<Rightarrow> (st\<lparr>pending := others @ [k]\<rparr>, [ev])
      | Finished this' \<Rightarrow> (st\<lparr>service := this', pending := others\<rparr>, []))"

fun exec_step :: "app \<Rightarrow> scheduled \<Rightarrow> app \<times> geofence_event list" where
  "exec_step st (Do (Sample loc)) = settle st (pending st) (start_cycle (service st) loc)"
| "exec_step st (Do (Load response)) =
     (st\<lparr>service := loadGeofenceRegions response (service st)\<rparr>, [])"
| "exec_step st (Resume i) =
     (if i < length (pending st)
      then settle st (take i (pending st) @ drop (Suc i) (pending st))
             (resume (service st) (pending st ! i))
      else (st, []))"

fun exec :: "app \<Rightarrow> scheduled list \<Rightarrow> app \<times> geofence_event list" where
  "exec st [] = (st, [])"
| "exec st (a # sched) =
     (let (st', evs) = exec_step st a;
          (st'', evs') = exec st' sched
      in (st'', evs @ evs'))"

text \<open>
  A schedule without overlap: a step of the service is taken only when no call is
  suspended, so that every cycle ends before the next sample or registry load.
\<close>

fun no_overlap :: "app \<Rightarrow> scheduled list \<Rightarrow> bool" where
  "no_overlap st [] = True"
| "no_overlap st (Do step # sched) =
     (pending st = [] \<and> no_overlap (fst (exec_step st (Do step))) sched)"
| "no_overlap st (Resume i # sched) = no_overlap (fst (exec_step st (Resume i))) sched"

text \<open>The steps of the service in a schedule.\<close>

fun steps_of :: "scheduled list \<Rightarrow> service_step list" where
  "steps_of [] = []"
| "steps_of (Do step # sched) = step # steps_of sched"
| "steps_of (Resume i # sched) = steps_of sched"

text \<open>
  The registry keeps zone \<open>z\<close>: at every detection cycle of the steps, the registry
  in force has distinct region ids, and it contains \<open>z\<close> if \<open>z\<close> is stored in
  \<open>lastKnownRegions\<close>. The backend cannot send two regions with one id, since
  \<open>geofenceRegionSchema\<close> declares \<open>regionId\<close> unique.
\<close>

fun zone_kept :: "string \<Rightarrow> location_service \<Rightarrow> service_step list \<Rightarrow> bool" where
  "zone_kept z this [] = True"
| "zone_kept z this (Sample loc # steps) =
     (distinct (map regionId (geofenceRegions this)) \<and>
      (z \<in> set (lastKnownRegions this) \<longrightarrow> z \<in> regionId ` set (geofenceRegions this)) \<and>
      zone_kept z (fst (checkGeofenceEvents this loc)) steps)"
| "zone_kept z this (Load response # steps) =
     zone_kept z (loadGeofenceRegions response this) steps"

text \<open>
  What is left of a suspended call when nothing else runs before it ends: the state it
  will assign and the events it will still emit.
\<close>

fun rest_of_cycle ::
  "location_service \<Rightarrow> continuation \<Rightarrow> location_service \<times> geofence_event list" where
  "rest_of_cycle this (In_entries loc rest currentRegions) =
     (let (currentRegions', entries) =
            check_entries (lastKnownRegions this) loc rest currentRegions;
          exits = check_exits (geofenceRegions this) currentRegions' loc (lastKnownRegions this)
      in (this\<lparr>lastKnownRegions := currentRegions'\<rparr>, entries @ exits))"
| "rest_of_cycle this (In_exits loc rest currentRegions) =
     (this\<lparr>lastKnownRegions := currentRegions\<rparr>,
      check_exits (geofenceRegions this) currentRegions loc rest)"

definition outcome ::
  "location_service \<Rightarrow> cycle_result \<Rightarrow> location_service \<times> geofence_event list" where
  "outcome this res =
     (case res of
        Finished this' \<Rightarrow> (this', [])
      | Suspended ev k \<Rightarrow> (fst (rest_of_cycle this k), ev # snd (rest_of_cycle this k)))"

definition settled :: "app \<Rightarrow> location_service \<times> geofence_event list" where
  "settled st =
     (case pending st of
        [] \<Rightarrow> (service st, [])
      | k # others \<Rightarrow> rest_of_cycle (service st) k)"

section \<open>Backend: \<open>POST /api/attendance/log\<close>\<close>

text \<open>
  The JSON object that the app posts and the route destructures. The optional properties
  \<open>regionId\<close>, \<open>deviceInfo\<close>, \<open>notes\<close> and \<open>timestamp\<close> are options,
  \<open>None\<close> for an absent or null one: the validation chain and the route treat the
  two alike for these four (\<open>trim\<close> turns a null into the empty string, which is
  falsy as the missing property is). The optional numbers of the location keep the two
  apart, since the chain does not. \<open>timestamp\<close> holds the value of
  \<open>new Date(timestamp)\<close> for the string sent: a date or the Invalid Date.
  \<open>failedAt\<close> is the property the app adds to a request it stores for retry; the
  route ignores it.
\<close>

datatype js_date = Date int | InvalidDate

record device_info =
  platform :: "string option"
  version :: "string option"

record attendance_data =
  type :: string
  location :: location
  data_regionId :: "string option"
  deviceInfo :: "device_info option"
  data_notes :: "string option"
  timestamp :: "js_date option"
  failedAt :: "js_date option"

text \<open>The authenticated user \<open>req.user\<close>: \<open>_id\<close>, \<open>name\<close>, \<open>employeeId\<close>.\<close>

record user =
  u_id :: user_id
  u_name :: string
  u_employeeId :: string

text \<open>An AttendanceLog document, with the fields the route sets.\<close>

record attendance_log =
  userId :: user_id
  username :: string
  employeeId :: string
  log_type :: string
  log_location :: location
  log_regionId :: "string option"
  log_timestamp :: js_date
  log_deviceInfo :: device_info
  log_notes :: "string option"

text \<open>The two collections the route touches.\<close>

record backend =
  regions :: "geofence_region list"
  logs :: "attendance_log list"

text \<open>
  The response: \<open>res.status(...).json({success, message, errors, log})\<close>; the
  property \<open>log\<close> is the field \<open>res_log\<close>, and holds the saved document, of which
  the route returns the id, type, location, region id, timestamp and notes.
\<close>

record response =
  status :: nat
  success :: bool
  message :: string
  errors :: "string list"
  res_log :: "attendance_log option"

text \<open>
  The express-validator chain of the route, on a body whose sanitizers (\<open>trim\<close>) have
  run: one message per failed validator, in the order of the chain. \<open>optional()\<close>
  skips a property that is undefined, and only that: a \<open>null\<close> accuracy is handed
  to \<open>isFloat\<close>, which fails on it.
\<close>

definition validation_errors :: "attendance_data \<Rightarrow> string list" where
  "validation_errors body =
     (if type body \<in> set [''login'', ''logout'', ''geofence_enter'', ''geofence_exit''] then []
      else [''Type must be login, logout, geofence_enter, or geofence_exit'']) @
     (if - 90 \<le> latitude (location body) \<and> latitude (location body) \<le> 90 then []
      else [''Latitude must be between -90 and 90'']) @
     (if - 180 \<le> longitude (location body) \<and> longitude (location body) \<le> 180 then []
      else [''Longitude must be between -180 and 180'']) @
     (case accuracy (location body) of
        Undefined \<Rightarrow> []
      | Null \<Rightarrow> [''Accuracy must be a positive number'']
      | Num a \<Rightarrow> if 0 \<le> a then [] else [''Accuracy must be a positive number'']) @
     (case data_notes body of
        None \<Rightarrow> []
      | Some n \<Rightarrow> if length n \<le> 500 then [] else [''Notes must not exceed 500 characters''])"

text \<open>
  \<open>x || 0\<close> and \<open>x || null\<close> on an optional number, and \<open>x || null\<close> on an
  optional string.
\<close>

definition num_or_zero :: "opt_number \<Rightarrow> opt_number" where
  "num_or_zero x = (case x of Num v \<Rightarrow> Num v | _ \<Rightarrow> Num 0)"

definition num_or_null :: "opt_number \<Rightarrow> opt_number" where
  "num_or_null x = (case x of Num v \<Rightarrow> if v = 0 then Null else Num v | _ \<Rightarrow> Null)"

definition str_or_null :: "string option \<Rightarrow> string option" where
  "str_or_null x = (case x of None \<Rightarrow> None | Some v \<Rightarrow> if v = [] then None else Some v)"

text \<open>\<open>GeofenceRegion.findOne({ regionId, isActive: true })\<close>.\<close>

definition findOne :: "geofence_region list \<Rightarrow> string \<Rightarrow> geofence_region option" where
  "findOne coll rid = find (\<lambda>r. regionId r = rid \<and> isActive r) coll"

text \<open>
  What Mongoose checks when a document is saved, from \<open>attendanceLogSchema\<close>: the
  required paths, the enum of \<open>type\<close>, the bounds of the coordinates, a castable date
  and the maximal length of the notes. The schema declares no unique index and no
  client-generated key.
\<close>

definition schema_valid :: "attendance_log \<Rightarrow> bool" where
  "schema_valid doc =
     (userId doc \<noteq> [] \<and> username doc \<noteq> [] \<and> employeeId doc \<noteq> [] \<and>
      log_type doc \<in> set [''login'', ''logout'', ''geofence_enter'', ''geofence_exit''] \<and>
      - 90 \<le> latitude (log_location doc) \<and> latitude (log_location doc) \<le> 90 \<and>
      - 180 \<le> longitude (log_location doc) \<and> longitude (log_location doc) \<le> 180 \<and>
      log_timestamp doc \<noteq> InvalidDate \<and>
      (case log_notes doc of None \<Rightarrow> True | Some n \<Rightarrow> length n \<le> 500))"

text \<open>A response \<open>res.status(code).json({ success: false, message })\<close>.\<close>

definition rejected :: "nat \<Rightarrow> string \<Rightarrow> response" where
  "rejected code msg =
     \<lparr>status = code, success = False, message = msg, errors = [], res_log = None\<rparr>"

text \<open>
  \<open>await attendanceLog.save()\<close> and the 201 response after it; a document that fails
  validation makes \<open>save\<close> throw, which the route's \<open>catch\<close> turns into a 500.
\<close>

definition save_and_respond :: "attendance_log \<Rightarrow> backend \<Rightarrow> response \<times> backend" where
  "save_and_respond attendanceLog db =
     (if schema_valid attendanceLog then
        (\<lparr>status = 201, success = True, message = ''Attendance logged successfully'',
          errors = [], res_log = Some attendanceLog\<rparr>,
         db\<lparr>logs := logs db @ [attendanceLog]\<rparr>)
      else (rejected 500 ''Server error while logging attendance'', db))"

text \<open>
  The document the route builds with \<open>new AttendanceLog({...})\<close>. \<open>now\<close> is the
  value of \<open>new Date()\<close> at the request.
\<close>

definition new_AttendanceLog :: "user \<Rightarrow> js_date \<Rightarrow> attendance_data \<Rightarrow> attendance_log" where
  "new_AttendanceLog usr now body =
     \<lparr>userId = u_id usr,
      username = u_name usr,
      employeeId = u_employeeId usr,
      log_type = type body,
      log_location =
        \<lparr>latitude = latitude (location body),
         longitude = longitude (location body),
         accuracy = num_or_zero (accuracy (location body)),
         altitude = num_or_null (altitude (location body)),
         heading = num_or_null (heading (location body)),
         speed = num_or_null (speed (location body))\<rparr>,
      log_regionId = str_or_null (data_regionId body),
      log_timestamp = (case timestamp body of None \<Rightarrow> now | Some t \<Rightarrow> t),
      log_deviceInfo =
        (case deviceInfo body of
           None \<Rightarrow> \<lparr>platform = None, version = None\<rparr>
         | Some d \<Rightarrow> d),
      log_notes = str_or_null (data_notes body)\<rparr>"

text \<open>
  The zone-policy checks of the route, entered under the guard
  \<open>(type === 'geofence_enter' || type === 'geofence_exit') && regionId\<close>. The guard is
  \<open>policy_regionId\<close>: its value is the region id when the guard holds (a non-empty
  string), and \<open>None\<close> when the type is another one or \<open>regionId\<close> is falsy.
\<close>

definition policy_regionId :: "attendance_data \<Rightarrow> string option" where
  "policy_regionId body =
     (if type body = ''geofence_enter'' \<or> type body = ''geofence_exit''
      then str_or_null (data_regionId body) else None)"

text \<open>The route handler.\<close>

definition post_attendance_log ::
  "user \<Rightarrow> js_date \<Rightarrow> attendance_data \<Rightarrow> backend \<Rightarrow> response \<times> backend" where
  "post_attendance_log usr now body db =
     (if validation_errors body \<noteq> [] then
        (\<lparr>status = 400, success = False, message = ''Validation error'',
          errors = validation_errors body, res_log = None\<rparr>, db)
      else
        (let attendanceLog = new_AttendanceLog usr now body
         in case policy_regionId body of
              None \<Rightarrow> save_and_respond attendanceLog db
            | Some rid \<Rightarrow>
                (case findOne (regions db) rid of
                   None \<Rightarrow> (rejected 400 ''Invalid or inactive geofence region'', db)
                 | Some r \<Rightarrow>
                     if \<not> isUserAllowed r (u_id usr) then
                       (rejected 403 ''User not allowed in this geofence region'', db)
                     else
                       (let isInside = isPointInside r (latitude (location body))
                                         (longitude (location body))
                        in if type body = ''geofence_enter'' \<and> \<not> isInside then
                             (rejected 400 ''Location is not within the geofence region'', db)
                           else save_and_respond attendanceLog db))))"

section \<open>Mobile app: delivery of attendance events\<close>

text \<open>
  \<open>attendanceAPI.logAttendance(data)\<close> is \<open>api.post('/attendance/log', data)\<close>. The
  promise resolves with the response body, or rejects with the object the response
  interceptor of the API module builds: a message and, when the server answered, the HTTP
  status. The location service is modelled over any such operation \<open>post\<close>, which
  threads the state \<open>'w\<close> of everything beyond the app (network, server).
\<close>

record api_error =
  err_message :: string
  err_status :: "nat option"

type_synonym 'w api_post = "attendance_data \<Rightarrow> 'w \<Rightarrow> (api_error + unit) \<times> 'w"

text \<open>
  The app settings kept in AsyncStorage under \<open>appSettings\<close>; the list of failed
  requests is absent until the first failure is stored.
\<close>

record settings =
  locationTracking :: bool
  notifications :: bool
  backgroundSync :: bool
  failedAttendanceRequests :: "attendance_data list option"

text \<open>\<open>storeFailedRequest(data)\<close>; \<open>now\<close> is the value of \<open>new Date()\<close>.\<close>

definition storeFailedRequest :: "js_date \<Rightarrow> attendance_data \<Rightarrow> settings \<Rightarrow> settings" where
  "storeFailedRequest now data failedRequests =
     (let requests = (case failedAttendanceRequests failedRequests of
                        None \<Rightarrow> [] | Some rs \<Rightarrow> rs)
      in failedRequests\<lparr>failedAttendanceRequests :=
                          Some (requests @ [data\<lparr>failedAt := Some now\<rparr>])\<rparr>)"

text \<open>
  \<open>logAttendance(data)\<close>: one request, with the device info added; the \<open>catch\<close>
  branch stores the data whatever the error is.
\<close>

definition logAttendance ::
  "'w api_post \<Rightarrow> js_date \<Rightarrow> attendance_data \<Rightarrow> settings \<times> 'w \<Rightarrow> settings \<times> 'w" where
  "logAttendance post now data sw =
     (let deviceInfo = \<lparr>platform = Some ''mobile'', version = Some ''1.0.0''\<rparr>;
          attendanceData = data\<lparr>deviceInfo := Some deviceInfo\<rparr>
      in case post attendanceData (snd sw) of
           (Inr ok, w') \<Rightarrow> (fst sw, w')
         | (Inl error, w') \<Rightarrow> (storeFailedRequest now data (fst sw), w'))"

text \<open>
  \<open>handleGeofenceEvent(eventType, region, location)\<close>. The clock is read once for
  the call: \<open>now\<close> is the \<open>timestamp\<close> of the event and, if the delivery fails, its
  \<open>failedAt\<close>.
\<close>

definition handleGeofenceEvent ::
  "'w api_post \<Rightarrow> js_date \<Rightarrow> geofence_event \<Rightarrow> settings \<times> 'w \<Rightarrow> settings \<times> 'w" where
  "handleGeofenceEvent post now ev sw =
     (let attendanceType = (if eventType ev = Enter then ''geofence_enter'' else ''geofence_exit'')
      in logAttendance post now
           \<lparr>type = attendanceType,
            location =
              \<lparr>latitude = latitude (sample ev),
               longitude = longitude (sample ev),
               accuracy = accuracy (sample ev),
               altitude = altitude (sample ev),
               heading = heading (sample ev),
               speed = speed (sample ev)\<rparr>,
            data_regionId = Some (regionId (region ev)),
            deviceInfo = None,
            data_notes = None,
            timestamp = Some now,
            failedAt = None\<rparr> sw)"

text \<open>
  The loop of \<open>retryFailedRequests\<close>. \<open>successfulRequests.includes(req)\<close> compares
  object identities, and the requests come from one \<open>JSON.parse\<close>, so each is a
  distinct object: a request is identified by its position \<open>i\<close> in the stored array.
  The loop returns the positions pushed onto \<open>successfulRequests\<close>.
\<close>

fun retry_loop :: "'w api_post \<Rightarrow> attendance_data list \<Rightarrow> nat \<Rightarrow> 'w \<Rightarrow> nat list \<times> 'w" where
  "retry_loop post [] i w = ([], w)"
| "retry_loop post (request # rest) i w =
     (case post request w of
        (Inr ok, w') \<Rightarrow>
          (let (successfulRequests, w'') = retry_loop post rest (Suc i) w'
           in (i # successfulRequests, w''))
      | (Inl error, w') \<Rightarrow> retry_loop post rest (Suc i) w')"

text \<open>\<open>retryFailedRequests()\<close>.\<close>

definition retryFailedRequests :: "'w api_post \<Rightarrow> settings \<times> 'w \<Rightarrow> settings \<times> 'w" where
  "retryFailedRequests post sw =
     (let settings = fst sw;
          failedRequests = (case failedAttendanceRequests settings of
                              None \<Rightarrow> [] | Some rs \<Rightarrow> rs)
      in if length failedRequests = 0 then sw
         else
           (let (successfulRequests, w') = retry_loop post failedRequests 0 (snd sw);
                remainingRequests =
                  map snd (filter (\<lambda>(i, req). i \<notin> set successfulRequests)
                             (enumerate 0 failedRequests))
            in (settings\<lparr>failedAttendanceRequests := Some remainingRequests\<rparr>, w')))"

text \<open>
  The outcomes of the requests of one pass over the stored requests, in order: each
  request is posted in the state that the requests before it have left.
\<close>

fun pass_outcomes :: "'w api_post \<Rightarrow> attendance_data list \<Rightarrow> 'w \<Rightarrow> (api_error + unit) list" where
  "pass_outcomes post [] w = []"
| "pass_outcomes post (request # rest) w =
     (case post request w of (res, w') \<Rightarrow> res # pass_outcomes post rest w')"

subsection \<open>The app against the backend\<close>

text \<open>
  An environment for running the app against the route above: a script of the network's
  availability, one entry consumed by each request (an exhausted script means the network
  is up), the requests that reached the server in order of arrival, and the backend. A
  request that does not reach the server rejects without a status; a response outside the
  2xx range rejects with the message and status of the response, as the interceptor
  builds them.
\<close>

record world =
  network :: "bool list"
  received :: "attendance_data list"
  server :: backend

definition api_post :: "user \<Rightarrow> js_date \<Rightarrow> world api_post" where
  "api_post usr now data w =
     (case network w of
        False # rest \<Rightarrow>
          (Inl \<lparr>err_message = ''Network Error'', err_status = None\<rparr>, w\<lparr>network := rest\<rparr>)
      | _ \<Rightarrow>
          (let (res, db') = post_attendance_log usr now data (server w);
               w' = w\<lparr>network := tl (network w), received := received w @ [data],
                       server := db'\<rparr>
           in if 200 \<le> status res \<and> status res < 300 then (Inr (), w')
              else (Inl \<lparr>err_message = message res, err_status = Some (status res)\<rparr>, w')))"

text \<open>
  A wrapper that records every request handed to \<open>post\<close>, in order, whatever its
  outcome.
\<close>

definition traced :: "'w api_post \<Rightarrow> (attendance_data list \<times> 'w) api_post" where
  "traced post data tw =
     (case post data (snd tw) of (res, w') \<Rightarrow> (res, (fst tw @ [data], w')))"

section \<open>Notions used in the statements\<close>

text \<open>
  The haversine formula as the specification names it: the great-circle distance
  \<open>2 R arcsin (sqrt h)\<close> between two points given in degrees, with the Earth radius
  \<open>R\<close> of 6,371,000 m and \<open>h\<close> the haversine of the central angle.
\<close>

definition haversine_formula :: "real \<Rightarrow> real \<Rightarrow> real \<Rightarrow> real \<Rightarrow> real" where
  "haversine_formula lat1 lon1 lat2 lon2 =
     2 * 6371000 *
       arcsin (sqrt ((sin ((lat2 - lat1) * pi / 180 / 2))\<^sup>2 +
                     cos (lat1 * pi / 180) * cos (lat2 * pi / 180) *
                     (sin ((lon2 - lon1) * pi / 180 / 2))\<^sup>2))"

text \<open>
  The classification of a sample against a region, as the first loop of
  \<open>checkGeofenceEvents\<close> computes \<open>isInside\<close>.
\<close>

definition inside_zone :: "location \<Rightarrow> geofence_region \<Rightarrow> bool" where
  "inside_zone loc r =
     js_le (calculateDistance (latitude loc) (longitude loc)
              (latitude (center r)) (longitude (center r))) (radius r)"

subsection \<open>Data of the scenarios\<close>

text \<open>
  The zone of the specification's scenarios, centred at (0, 0) with a radius of 100 m and
  open to all users; a second zone restricted to one member; a device location with the
  coordinates only; an employee of the seed data; and a geofence request of that
  employee's app.
\<close>

definition zone_A :: geofence_region where
  "zone_A = \<lparr>regionId = ''A'', name = ''Zone A'',
             center = \<lparr>latitude = 0, longitude = 0\<rparr>,
             radius = 100, isActive = True, allowedUsers = []\<rparr>"

definition zone_B :: geofence_region where
  "zone_B = \<lparr>regionId = ''B'', name = ''Zone B'',
             center = \<lparr>latitude = 0, longitude = 0\<rparr>,
             radius = 100, isActive = True, allowedUsers = [''u2'']\<rparr>"

definition at_point :: "real \<Rightarrow> real \<Rightarrow> location" where
  "at_point lat lon =
     \<lparr>latitude = lat, longitude = lon, accuracy = Undefined, altitude = Undefined,
      heading = Undefined, speed = Undefined\<rparr>"

definition employee :: user where
  "employee = \<lparr>u_id = ''u1'', u_name = ''Mike Johnson'', u_employeeId = ''EMP003''\<rparr>"

definition geofence_request :: "string \<Rightarrow> string \<Rightarrow> location \<Rightarrow> attendance_data" where
  "geofence_request t rid loc =
     \<lparr>type = t, location = loc, data_regionId = Some rid, deviceInfo = None,
      data_notes = None, timestamp = Some (Date 0), failedAt = None\<rparr>"

definition backend_AB :: backend where
  "backend_AB = \<lparr>regions = [zone_A, zone_B], logs = []\<rparr>"

text \<open>
  The settings \<open>storage.getSettings\<close> returns when nothing is stored, and a world with
  the network up and nothing received yet.
\<close>

definition default_settings :: settings where
  "default_settings =
     \<lparr>locationTracking = True, notifications = True, backgroundSync = True,
      failedAttendanceRequests = None\<rparr>"

definition world_0 :: world where
  "world_0 = \<lparr>network = [], received = [], server = backend_AB\<rparr>"

text \<open>An API whose every request is rejected with a 403, on a world without state.\<close>

definition always_403 :: "unit api_post" where
  "always_403 data w =
     (Inl \<lparr>err_message = ''User not allowed in this geofence region'',
           err_status = Some 403\<rparr>, w)"

section \<open>Properties of the geo-math\<close>

lemma haversine_term_sym:
  "sin ((lat1 - lat2) * pi / 180 / 2) * sin ((lat1 - lat2) * pi / 180 / 2) +
     cos (lat2 * pi / 180) * cos (lat1 * pi / 180) *
     sin ((lon1 - lon2) * pi / 180 / 2) * sin ((lon1 - lon2) * pi / 180 / 2) =
   sin ((lat2 - lat1) * pi / 180 / 2) * sin ((lat2 - lat1) * pi / 180 / 2) +
     cos (lat1 * pi / 180) * cos (lat2 * pi / 180) *
     sin ((lon2 - lon1) * pi / 180 / 2) * sin ((lon2 - lon1) * pi / 180 / 2)"
proof -
  have p: "(lat1 - lat2) * pi / 180 / 2 = - ((lat2 - lat1) * pi / 180 / 2)"
    by (simp add: field_simps)
  have l: "(lon1 - lon2) * pi / 180 / 2 = - ((lon2 - lon1) * pi / 180 / 2)"
    by (simp add: field_simps)
  show ?thesis
    unfolding p l sin_minus by (simp add: mult.commute)
qed

lemma calculateDistance_sym:
  "calculateDistance lat1 lon1 lat2 lon2 = calculateDistance lat2 lon2 lat1 lon1"
  unfolding calculateDistance_def Let_def haversine_term_sym [of lat1 lat2 lon1 lon2] ..

lemma getDistanceFromCenter_calculateDistance:
  "getDistanceFromCenter r lat lon =
     calculateDistance (latitude (center r)) (longitude (center r)) lat lon"
  unfolding getDistanceFromCenter_def calculateDistance_def ..

lemma isPointInside_getDistance:
  "isPointInside r lat lon = js_le (getDistanceFromCenter r lat lon) (radius r)"
  unfolding getDistanceFromCenter_def isPointInside_def Let_def ..

lemma isPointInside_inside_zone:
  "isPointInside r (latitude loc) (longitude loc) = inside_zone loc r"
  unfolding isPointInside_getDistance getDistanceFromCenter_calculateDistance inside_zone_def
  by (simp add: calculateDistance_sym)

lemma distance_same_point: "calculateDistance 0 0 0 0 = Some 0"
  by (simp add: calculateDistance_def Math_sqrt_def Math_atan2_def)

text \<open>Two elementary bounds: the sine from below and the tangent from above.\<close>

lemma sin_lower:
  fixes x :: real
  assumes "0 < x" "x \<le> 1"
  shows "x / 2 \<le> sin x"
proof -
  obtain t where t: "sin x = (\<Sum>m<2. sin_coeff m * x ^ m) +
      sin (t + 1 / 2 * real 2 * pi) / fact 2 * x ^ 2"
    using Maclaurin_sin_expansion3 [of 2 x] assms by auto
  have "sin x = x - sin t / 2 * x\<^sup>2"
    using t by (simp add: sin_coeff_def numeral_2_eq_2)
  moreover have "sin t / 2 * x\<^sup>2 \<le> 1 / 2 * x\<^sup>2"
    by (intro mult_right_mono) auto
  moreover have "x\<^sup>2 \<le> x"
    using assms by (simp add: power2_eq_square mult_left_le)
  ultimately show ?thesis by linarith
qed

lemma tan_upper:
  fixes t :: real
  assumes "0 \<le> t" "t \<le> pi / 3"
  shows "tan t \<le> 2 * t"
proof -
  have c: "1 / 2 \<le> cos t"
    using cos_monotone_0_pi_le [of t "pi / 3"] assms by (simp add: cos_60)
  have s: "sin t \<le> t" using assms by (simp add: sin_x_le_x)
  have "tan t = sin t / cos t" by (simp add: tan_def)
  also have "\<dots> \<le> t / cos t" using s c by (simp add: divide_right_mono)
  also have "\<dots> \<le> t / (1 / 2)" using c assms by (intro divide_left_mono) auto
  finally show ?thesis by simp
qed

lemma atan2_lower:
  assumes s: "0 \<le> s" "s\<^sup>2 \<le> a" and a: "a < 1"
    and th: "0 \<le> th" "th \<le> pi / 3" "2 * th \<le> s"
  shows "th \<le> Math_atan2 (sqrt a) (sqrt (1 - a))"
proof -
  have a0: "0 \<le> a" using s by (meson order_trans zero_le_power2)
  have pos: "0 < sqrt (1 - a)" using a by simp
  have le1: "sqrt (1 - a) \<le> 1" using a0 by simp
  have "s \<le> sqrt a" using s by (simp add: real_le_rsqrt)
  also have "\<dots> \<le> sqrt a / sqrt (1 - a)"
    using pos le1 a0 by (simp add: pos_le_divide_eq mult_left_le)
  finally have "tan th \<le> sqrt a / sqrt (1 - a)"
    using tan_upper [OF th(1,2)] th(3) by linarith
  then have "arctan (tan th) \<le> arctan (sqrt a / sqrt (1 - a))"
    by (simp add: arctan_le_iff)
  moreover have "arctan (tan th) = th"
    using th pi_gt_zero by (intro arctan_tan) linarith+
  ultimately show ?thesis using pos by (simp add: Math_atan2_def)
qed

text \<open>
  A hundredth of a degree of latitude away, the distance is more than 100 m: the
  central angle is at least \<open>2 / 100000\<close>, which makes 127 m.
\<close>

lemma far_term:
  fixes s c :: real
  assumes s: "s = sin (pi / 36000)" and c: "0 \<le> c" "c \<le> 1"
  shows "\<not> js_le (case Math_sqrt (s * s + c * s * s) of
           None \<Rightarrow> None
         | Some sa \<Rightarrow>
             (case Math_sqrt (1 - (s * s + c * s * s)) of
                None \<Rightarrow> None
              | Some sb \<Rightarrow> Some (6371000 * (2 * Math_atan2 sa sb)))) 100"
proof -
  define a where "a = s * s + c * s * s"
  have x0: "0 < pi / 36000" by simp
  have x1: "pi / 36000 \<le> 1" using pi_less_4 by simp
  have lo: "1 / 36000 \<le> s"
    using sin_lower [OF x0 x1] pi_ge_two unfolding s by linarith
  have hi: "s \<le> 1 / 9000"
    using sin_x_le_x [of "pi / 36000"] pi_less_4 unfolding s by simp
  have s0: "0 \<le> s" using lo by linarith
  have ss: "s * s \<le> (1 / 9000) * (1 / 9000)"
    using hi s0 by (intro mult_mono) auto
  have css: "0 \<le> c * s * s" using c s0 by simp
  have css1: "c * s * s \<le> 1 * (s * s)"
    using mult_right_mono [of c 1 "s * s"] c s0 by (simp add: mult.assoc)
  have a_lo: "s\<^sup>2 \<le> a" using css by (simp add: a_def power2_eq_square)
  have a_hi: "a < 1" using ss css1 by (simp add: a_def)
  have a0: "0 \<le> a" using a_lo by (meson order_trans zero_le_power2)
  have "(1 / 100000 :: real) \<le> Math_atan2 (sqrt a) (sqrt (1 - a))"
    using lo pi_ge_two by (intro atan2_lower [OF s0 a_lo a_hi]) auto
  then have "100 < 6371000 * (2 * Math_atan2 (sqrt a) (sqrt (1 - a)))" by simp
  then show ?thesis
    using a0 a_hi unfolding a_def [symmetric] by (simp add: Math_sqrt_def js_le_def)
qed

lemma far_sample: "\<not> js_le (calculateDistance 0.01 0.01 0 0) 100"
proof -
  have h: "(0 - 0.01) * pi / 180 / 2 = - (pi / 36000)" by simp
  have a: "sin ((0 - 0.01) * pi / 180 / 2) * sin ((0 - 0.01) * pi / 180 / 2) +
           cos (0.01 * pi / 180) * cos (0 * pi / 180) *
           sin ((0 - 0.01) * pi / 180 / 2) * sin ((0 - 0.01) * pi / 180 / 2) =
           sin (pi / 36000) * sin (pi / 36000) +
           cos (0.01 * pi / 180) * sin (pi / 36000) * sin (pi / 36000)"
    unfolding h sin_minus by simp
  have c: "0 \<le> cos (0.01 * pi / 180)" "cos (0.01 * pi / 180) \<le> 1"
    using pi_less_4 by (auto intro!: cos_ge_zero)
  show ?thesis
    unfolding calculateDistance_def Let_def a
    by (rule far_term [OF refl c])
qed

lemma zone_A_fields:
  "regionId zone_A = ''A''" "latitude (center zone_A) = 0" "longitude (center zone_A) = 0"
  "radius zone_A = 100" "isActive zone_A" "allowedUsers zone_A = []"
  by (simp_all add: zone_A_def)

lemma at_point_fields:
  "latitude (at_point lat lon) = lat" "longitude (at_point lat lon) = lon"
  "accuracy (at_point lat lon) = Undefined"
  by (simp_all add: at_point_def)

lemma center_inside: "inside_zone (at_point 0 0) zone_A"
  by (simp add: inside_zone_def at_point_fields zone_A_fields distance_same_point js_le_def)

lemma far_outside: "\<not> inside_zone (at_point 0.01 0.01) zone_A"
  using far_sample by (simp add: inside_zone_def at_point_fields zone_A_fields)

text \<open>The code against the haversine formula.\<close>

lemma sin_half_sq: "sin (x / 2) * sin (x / 2) = (1 - cos x) / (2::real)"
  using cos_double_sin [of "x / 2"] by (simp add: power2_eq_square)

lemma haversine_term_bounds:
  fixes p1 p2 l :: real
  assumes "0 \<le> cos p1" "0 \<le> cos p2"
  defines "a \<equiv> sin ((p2 - p1) / 2) * sin ((p2 - p1) / 2) +
                cos p1 * cos p2 * sin (l / 2) * sin (l / 2)"
  shows "0 \<le> a \<and> a \<le> 1"
proof
  have cc: "0 \<le> cos p1 * cos p2" using assms by simp
  have sl: "0 \<le> sin (l / 2) * sin (l / 2)" by simp
  have sl1: "sin (l / 2) * sin (l / 2) \<le> 1"
    using sin_cos_squared_add3 [of "l / 2"] zero_le_square [of "cos (l / 2)"] by linarith
  have "0 \<le> cos p1 * cos p2 * (sin (l / 2) * sin (l / 2))"
    using cc sl by (rule mult_nonneg_nonneg)
  then show "0 \<le> a" by (simp add: a_def mult.assoc)
  have "cos p1 * cos p2 * (sin (l / 2) * sin (l / 2)) \<le> cos p1 * cos p2 * 1"
    using cc sl1 by (rule mult_left_mono[rotated])
  then have "a \<le> (1 - cos (p2 - p1)) / 2 + cos p1 * cos p2"
    by (simp add: a_def sin_half_sq mult.assoc)
  also have "\<dots> = (1 + cos (p1 + p2)) / 2"
    by (simp add: cos_diff cos_add field_simps)
  also have "\<dots> \<le> 1" using cos_le_one [of "p1 + p2"] by simp
  finally show "a \<le> 1" .
qed

lemma atan2_arcsin:
  assumes "0 \<le> a" "a \<le> 1"
  shows "Math_atan2 (sqrt a) (sqrt (1 - a)) = arcsin (sqrt a)"
proof (cases "a = 1")
  case True
  then show ?thesis by (simp add: Math_atan2_def)
next
  case False
  then have a: "a < 1" using assms by simp
  have "arcsin (sqrt a) = arctan (sqrt a / sqrt (1 - (sqrt a)\<^sup>2))"
    using a assms by (intro arcsin_arctan) (auto intro: order.strict_trans2 [of "-1" 0])
  then show ?thesis using a assms by (simp add: Math_atan2_def)
qed

lemma lat_cos_nonneg:
  fixes lat :: real
  assumes "- 90 \<le> lat" "lat \<le> 90"
  shows "0 \<le> cos (lat * pi / 180)"
proof (rule cos_ge_zero)
  have "lat * pi \<le> 90 * pi" using mult_right_mono [of lat 90 pi] assms by simp
  then show "lat * pi / 180 \<le> pi / 2" by simp
  have "- 90 * pi \<le> lat * pi" using mult_right_mono [of "- 90" lat pi] assms by simp
  then show "- (pi / 2) \<le> lat * pi / 180" by simp
qed

lemma calculateDistance_haversine:
  assumes "- 90 \<le> lat1" "lat1 \<le> 90" "- 90 \<le> lat2" "lat2 \<le> 90"
  shows "calculateDistance lat1 lon1 lat2 lon2 = Some (haversine_formula lat1 lon1 lat2 lon2)"
proof -
  define a where "a =
     sin ((lat2 - lat1) * pi / 180 / 2) * sin ((lat2 - lat1) * pi / 180 / 2) +
     cos (lat1 * pi / 180) * cos (lat2 * pi / 180) *
     sin ((lon2 - lon1) * pi / 180 / 2) * sin ((lon2 - lon1) * pi / 180 / 2)"
  have d: "(lat2 - lat1) * pi / 180 = lat2 * pi / 180 - lat1 * pi / 180"
    by (simp add: field_simps)
  have b: "0 \<le> a \<and> a \<le> 1"
    unfolding a_def d
    using haversine_term_bounds [OF lat_cos_nonneg [OF assms(1,2)]
        lat_cos_nonneg [OF assms(3,4)], of "(lon2 - lon1) * pi / 180"]
    by simp
  have h: "haversine_formula lat1 lon1 lat2 lon2 = 2 * 6371000 * arcsin (sqrt a)"
    by (simp add: haversine_formula_def a_def power2_eq_square mult.assoc)
  have "calculateDistance lat1 lon1 lat2 lon2 =
          Some (6371000 * (2 * Math_atan2 (sqrt a) (sqrt (1 - a))))"
    unfolding calculateDistance_def Let_def a_def [symmetric]
    using b by (simp add: Math_sqrt_def)
  then show ?thesis using atan2_arcsin b h by simp
qed

text \<open>
  Claim C7. \<open>calculateDistance\<close> computes the haversine great-circle distance with the
  Earth radius of 6,371,000 m (for latitudes within their bounds), the backend's
  containment test is \<open>distance \<le> radius\<close> on the same distance, the distance from
  (0, 0) to (0, 0) is 0, and for the zone centred at (0, 0) with radius 100 m a sample at
  (0, 0) is inside and a sample at (0.01, 0.01) is outside, for the backend's
  \<open>isPointInside\<close> and for the app's classification alike.
\<close>

theorem C7_haversine_containment:
  "(- 90 \<le> lat1 \<and> lat1 \<le> 90 \<and> - 90 \<le> lat2 \<and> lat2 \<le> 90 \<longrightarrow>
      calculateDistance lat1 lon1 lat2 lon2 = Some (haversine_formula lat1 lon1 lat2 lon2)) \<and>
   isPointInside r lat lon =
      js_le (calculateDistance (latitude (center r)) (longitude (center r)) lat lon) (radius r) \<and>
   calculateDistance 0 0 0 0 = Some 0 \<and>
   isPointInside zone_A 0 0 \<and> \<not> isPointInside zone_A 0.01 0.01 \<and>
   snd (check_entries [] (at_point 0 0) [zone_A] []) =
      [\<lparr>eventType = Enter, region = zone_A, sample = at_point 0 0\<rparr>] \<and>
   snd (check_entries [] (at_point 0.01 0.01) [zone_A] []) = []"
proof -
  have i0: "isPointInside zone_A 0 0"
    using center_inside isPointInside_inside_zone [of zone_A "at_point 0 0"]
    by (simp add: at_point_fields)
  have i1: "\<not> isPointInside zone_A 0.01 0.01"
    using far_outside isPointInside_inside_zone [of zone_A "at_point 0.01 0.01"]
    by (simp add: at_point_fields)
  have e0: "snd (check_entries [] (at_point 0 0) [zone_A] []) =
      [\<lparr>eventType = Enter, region = zone_A, sample = at_point 0 0\<rparr>]"
    using center_inside by (simp add: inside_zone_def Let_def)
  have e1: "snd (check_entries [] (at_point 0.01 0.01) [zone_A] []) = []"
    using far_outside by (simp add: inside_zone_def Let_def)
  show ?thesis
    using calculateDistance_haversine [of lat1 lat2 lon1 lon2] i0 i1 e0 e1
    by (simp add: distance_same_point isPointInside_getDistance
          getDistanceFromCenter_calculateDistance)
qed

theorem C7_haversine_containment_witness:
  "- 90 \<le> (0::real) \<and> (0::real) \<le> 90 \<and>
   calculateDistance 0 0 0 0 = Some (haversine_formula 0 0 0 0) \<and>
   haversine_formula 0 0 0 0 = 0"
  using C7_haversine_containment [of 0 0 0 0 zone_A 0 0]
  by (simp add: haversine_formula_def)

text \<open>
  Claim C10. The distance is symmetric: \<open>calculateDistance\<close> gives the same result
  with its two points exchanged, for all coordinates; and so does the backend's
  \<open>getDistanceFromCenter\<close>, from the centre of one region to the centre of another and
  back.
\<close>

theorem C10_distance_symmetric:
  "calculateDistance lat1 lon1 lat2 lon2 = calculateDistance lat2 lon2 lat1 lon1 \<and>
   getDistanceFromCenter r (latitude (center r')) (longitude (center r')) =
     getDistanceFromCenter r' (latitude (center r)) (longitude (center r))"
  unfolding getDistanceFromCenter_calculateDistance
  using calculateDistance_sym [of lat1 lon1 lat2 lon2]
    calculateDistance_sym [of "latitude (center r)" "longitude (center r)"
       "latitude (center r')" "longitude (center r')"]
  by simp

section \<open>Properties of the transition detector\<close>

text \<open>What the two loops of \<open>checkGeofenceEvents\<close> compute.\<close>

lemma check_entries_cur:
  "set (fst (check_entries lastKnown loc rs cur)) =
     set cur \<union> regionId ` {r \<in> set rs. inside_zone loc r}"
  by (induction rs arbitrary: cur)
     (auto simp: Let_def Set_add_def inside_zone_def case_prod_beta)

lemma check_entries_distinct:
  "distinct cur \<Longrightarrow> distinct (fst (check_entries lastKnown loc rs cur))"
  by (induction rs arbitrary: cur)
     (auto simp: Let_def Set_add_def case_prod_beta)

lemma check_entries_events:
  "snd (check_entries lastKnown loc rs cur) =
     map (\<lambda>r. \<lparr>eventType = Enter, region = r, sample = loc\<rparr>)
       (filter (\<lambda>r. inside_zone loc r \<and> regionId r \<notin> set lastKnown) rs)"
  by (induction rs arbitrary: cur)
     (auto simp: Let_def inside_zone_def case_prod_beta)

lemma length_filter_key:
  "distinct (map f xs) \<Longrightarrow> length (filter (\<lambda>x. f x = z \<and> P x) xs) =
      (if \<exists>x\<in>set xs. f x = z \<and> P x then 1 else 0)"
proof (induction xs)
  case Nil
  then show ?case by simp
next
  case (Cons x xs)
  then show ?case by (auto simp: image_iff) 
qed

lemma events_for_entries:
  assumes "distinct (map regionId rs)"
  shows "events_for z (snd (check_entries lastKnown loc rs cur)) =
     (if (\<exists>r\<in>set rs. regionId r = z \<and> inside_zone loc r) \<and> z \<notin> set lastKnown
      then [Enter] else [])"
proof -
  have "events_for z (snd (check_entries lastKnown loc rs cur)) =
     map (\<lambda>r. Enter) (filter (\<lambda>r. regionId r = z \<and> (inside_zone loc r \<and> z \<notin> set lastKnown)) rs)"
    unfolding check_entries_events events_for_def
    by (simp add: filter_map comp_def conj_commute cong: conj_cong)
  also have "\<dots> = replicate (length (filter (\<lambda>r. regionId r = z \<and> (inside_zone loc r \<and> z \<notin> set lastKnown)) rs)) Enter"
    by (simp add: map_replicate_const)
  also have "\<dots> = (if (\<exists>r\<in>set rs. regionId r = z \<and> inside_zone loc r) \<and> z \<notin> set lastKnown
      then [Enter] else [])"
    unfolding length_filter_key [OF assms] by auto
  finally show ?thesis .
qed

lemma events_for_exits:
  "distinct lastKnown \<Longrightarrow>
   events_for z (check_exits regs cur loc lastKnown) =
     (if z \<in> set lastKnown \<and> z \<notin> set cur \<and> z \<in> regionId ` set regs then [Exit] else [])"
proof (induction lastKnown)
  case Nil
  then show ?case by (simp add: events_for_def)
next
  case (Cons rid rest)
  show ?case
  proof (cases "find (\<lambda>r. regionId r = rid) regs")
    case None
    then have "rid \<notin> regionId ` set regs" by (auto simp: find_None_iff)
    with None Cons show ?thesis by (auto simp: events_for_def)
  next
    case (Some r)
    then have "regionId r = rid" "r \<in> set regs" by (auto simp: find_Some_iff in_set_conv_nth)
    with Some Cons show ?thesis by (auto simp: events_for_def)
  qed
qed

text \<open>One detection cycle, and a sequence of samples on an unchanged registry.\<close>

lemma checkGeofenceEvents_regions:
  "geofenceRegions (fst (checkGeofenceEvents this loc)) = geofenceRegions this"
  by (simp add: checkGeofenceEvents_def case_prod_beta Let_def)

lemma checkGeofenceEvents_lastKnown:
  "set (lastKnownRegions (fst (checkGeofenceEvents this loc))) =
     regionId ` {r \<in> set (geofenceRegions this). inside_zone loc r}"
  by (simp add: checkGeofenceEvents_def case_prod_beta Let_def check_entries_cur)

lemma checkGeofenceEvents_distinct:
  "distinct (lastKnownRegions (fst (checkGeofenceEvents this loc)))"
  by (simp add: checkGeofenceEvents_def case_prod_beta Let_def check_entries_distinct)

lemma checkGeofenceEvents_events:
  assumes "distinct (map regionId (geofenceRegions this))" "distinct (lastKnownRegions this)"
  shows "events_for z (snd (checkGeofenceEvents this loc)) =
     (if (\<exists>r\<in>set (geofenceRegions this). regionId r = z \<and> inside_zone loc r)
         \<and> z \<notin> set (lastKnownRegions this) then [Enter]
      else if \<not> (\<exists>r\<in>set (geofenceRegions this). regionId r = z \<and> inside_zone loc r)
         \<and> z \<in> set (lastKnownRegions this) \<and> z \<in> regionId ` set (geofenceRegions this) then [Exit]
      else [])"
proof -
  have split: "events_for z (snd (checkGeofenceEvents this loc)) =
     events_for z (snd (check_entries (lastKnownRegions this) loc (geofenceRegions this) [])) @
     events_for z (check_exits (geofenceRegions this)
        (fst (check_entries (lastKnownRegions this) loc (geofenceRegions this) [])) loc (lastKnownRegions this))"
    by (simp add: checkGeofenceEvents_def case_prod_beta Let_def events_for_def)
  have m: "z \<in> set [] \<union> regionId ` {r \<in> set (geofenceRegions this). inside_zone loc r} \<longleftrightarrow>
       (\<exists>r\<in>set (geofenceRegions this). regionId r = z \<and> inside_zone loc r)"
    by auto
  show ?thesis
    unfolding split events_for_entries [OF assms(1)] events_for_exits [OF assms(2)]
      check_entries_cur m
    by simp
qed

lemma find_Some_mem: "find P xs = Some x \<Longrightarrow> x \<in> set xs \<and> P x"
  by (induction xs) (auto split: if_splits)

lemma check_exits_region:
  "e \<in> set (check_exits regs cur loc lastKnown) \<Longrightarrow> region e \<in> set regs"
proof (induction lastKnown)
  case Nil
  then show ?case by simp
next
  case (Cons rid rest)
  then show ?case
    by (auto dest: find_Some_mem split: if_splits option.splits)
qed

lemma checkGeofenceEvents_region:
  assumes "e \<in> set (snd (checkGeofenceEvents this loc))"
  shows "region e \<in> set (geofenceRegions this)"
proof -
  from assms consider
      "e \<in> set (snd (check_entries (lastKnownRegions this) loc (geofenceRegions this) []))"
    | "e \<in> set (check_exits (geofenceRegions this)
               (fst (check_entries (lastKnownRegions this) loc (geofenceRegions this) []))
               loc (lastKnownRegions this))"
    by (auto simp: checkGeofenceEvents_def case_prod_beta Let_def)
  then show ?thesis
  proof cases
    case 1
    then show ?thesis unfolding check_entries_events by auto
  next
    case 2
    then show ?thesis by (rule check_exits_region)
  qed
qed

lemma events_for_append: "events_for z (xs @ ys) = events_for z xs @ events_for z ys"
  by (simp add: events_for_def)

lemma run_Sample:
  "run this (Sample loc # steps) =
     (fst (run (fst (checkGeofenceEvents this loc)) steps),
      snd (checkGeofenceEvents this loc) @ snd (run (fst (checkGeofenceEvents this loc)) steps))"
  by (simp add: case_prod_beta Let_def)

lemma run_regions:
  "\<forall>s\<in>set steps. is_Sample s \<Longrightarrow> geofenceRegions (fst (run this steps)) = geofenceRegions this"
proof (induction steps arbitrary: this)
  case Nil
  then show ?case by simp
next
  case (Cons s steps)
  then obtain loc where s: "s = Sample loc" by (cases s) auto
  show ?case using Cons unfolding s run_Sample by (simp add: checkGeofenceEvents_regions)
qed

lemma absent_zone_silent:
  assumes "z \<notin> regionId ` set (geofenceRegions this)" "\<forall>s\<in>set steps. is_Sample s"
  shows "events_for z (snd (run this steps)) = []"
  using assms
proof (induction steps arbitrary: this)
  case Nil
  then show ?case by (simp add: events_for_def)
next
  case (Cons s steps)
  then obtain loc where s: "s = Sample loc" by (cases s) auto
  have e: "events_for z (snd (checkGeofenceEvents this loc)) = []"
  proof -
    have "\<And>e. e \<in> set (snd (checkGeofenceEvents this loc)) \<Longrightarrow> regionId (region e) \<in> regionId ` set (geofenceRegions this)"
      using checkGeofenceEvents_region by blast
    then show ?thesis using Cons.prems(1) by (auto simp: events_for_def filter_empty_conv)
  qed
  show ?case
    unfolding s run_Sample snd_conv events_for_append e
    using Cons.IH [of "fst (checkGeofenceEvents this loc)"] Cons.prems
    by (simp add: checkGeofenceEvents_regions)
qed

lemma alternating_Cons:
  "alternating (e # es) = ((es = [] \<or> hd es \<noteq> e) \<and> alternating es)"
  by (cases es) auto

lemma alternating_counts:
  "alternating es \<Longrightarrow>
     (es = [] \<longrightarrow> int (length (filter (\<lambda>e. e = Enter) es)) - int (length (filter (\<lambda>e. e = Exit) es)) = 0) \<and>
     (es \<noteq> [] \<and> hd es = Enter \<longrightarrow> int (length (filter (\<lambda>e. e = Enter) es)) - int (length (filter (\<lambda>e. e = Exit) es)) \<in> {0, 1}) \<and>
     (es \<noteq> [] \<and> hd es = Exit \<longrightarrow> int (length (filter (\<lambda>e. e = Enter) es)) - int (length (filter (\<lambda>e. e = Exit) es)) \<in> {-1, 0})"
proof (induction es rule: alternating.induct)
  case 1
  then show ?case by simp
next
  case (2 e)
  then show ?case by (cases e) auto
next
  case (3 e e' es)
  then show ?case by (cases e; cases e') auto
qed

lemma alternating_balance:
  assumes "alternating es"
  shows "\<bar>int (length (filter (\<lambda>e. e = Enter) es)) - int (length (filter (\<lambda>e. e = Exit) es))\<bar> \<le> 1"
proof (cases es)
  case Nil
  then show ?thesis by simp
next
  case (Cons e es')
  then show ?thesis using alternating_counts [OF assms] by (cases e) auto
qed

lemma run_lastKnown:
  assumes "steps \<noteq> []" "\<forall>s\<in>set steps. is_Sample s"
  shows "set (lastKnownRegions (fst (run this steps))) \<subseteq> regionId ` set (geofenceRegions this)"
  using assms
proof (induction steps arbitrary: this)
  case Nil
  then show ?case by simp
next
  case (Cons s steps)
  then obtain loc where s: "s = Sample loc" by (cases s) auto
  show ?case
  proof (cases "steps = []")
    case True
    then show ?thesis
      unfolding s run_Sample by (auto simp: checkGeofenceEvents_lastKnown)
  next
    case False
    then show ?thesis
      unfolding s run_Sample fst_conv
      using Cons.IH [of "fst (checkGeofenceEvents this loc)"] Cons.prems(2)
      by (simp add: checkGeofenceEvents_regions)
  qed
qed

lemma check_A_enters:
  "checkGeofenceEvents \<lparr>geofenceRegions = [zone_A], lastKnownRegions = []\<rparr> (at_point 0 0) =
     (\<lparr>geofenceRegions = [zone_A], lastKnownRegions = [''A'']\<rparr>,
      [\<lparr>eventType = Enter, region = zone_A, sample = at_point 0 0\<rparr>])"
  by (simp add: checkGeofenceEvents_def Let_def Set_add_def zone_A_fields at_point_fields
        distance_same_point js_le_def)

lemma check_empty_registry:
  "checkGeofenceEvents \<lparr>geofenceRegions = [], lastKnownRegions = l\<rparr> loc =
     (\<lparr>geofenceRegions = [], lastKnownRegions = []\<rparr>, [])"
  by (induction l) (simp_all add: checkGeofenceEvents_def)

text \<open>
  Claim C1 fails on the code. The app is inside zone A; the registry is then loaded
  without zone A; the two following samples emit nothing for A, and the stored set no
  longer holds A: the exit loop skips an id that \<open>find\<close> does not find in the
  registry. The same from the state itself: with A stored and an empty registry, a
  detection cycle emits no event.
\<close>

theorem C1_counterexample:
  "run new_LocationService
      [Load (Fetched (Some [zone_A])), Sample (at_point 0 0),
       Load (Fetched (Some [])), Sample (at_point 0 0), Sample (at_point 0 0)] =
   (\<lparr>geofenceRegions = [], lastKnownRegions = []\<rparr>,
    [\<lparr>eventType = Enter, region = zone_A, sample = at_point 0 0\<rparr>]) \<and>
   checkGeofenceEvents \<lparr>geofenceRegions = [], lastKnownRegions = [''A'']\<rparr> (at_point 0 0) =
   (\<lparr>geofenceRegions = [], lastKnownRegions = []\<rparr>, [])"
  by (simp add: new_LocationService_def loadGeofenceRegions_def check_A_enters
       check_empty_registry Let_def)

text \<open>
  Claim C1, amended. For a zone that is absent from the registry snapshot, whatever its
  stored state, the detection cycles on that snapshot emit no event for it, and after the
  first cycle the zone is no longer in the stored set: the zone is dropped silently, and
  repeated calls with the zone still absent emit nothing for it.
\<close>

theorem C1_absent_zone_dropped_silently:
  assumes "z \<notin> regionId ` set (geofenceRegions this)" "\<forall>s\<in>set steps. is_Sample s"
  shows "events_for z (snd (run this steps)) = [] \<and>
         (steps \<noteq> [] \<longrightarrow> z \<notin> set (lastKnownRegions (fst (run this steps))))"
  using absent_zone_silent [OF assms] run_lastKnown [OF _ assms(2), of this] assms(1)
  by auto

theorem C1_absent_zone_dropped_silently_witness:
  "''A'' \<notin> regionId ` set (geofenceRegions \<lparr>geofenceRegions = [], lastKnownRegions = [''A'']\<rparr>) \<and>
   events_for ''A'' (snd (run \<lparr>geofenceRegions = [], lastKnownRegions = [''A'']\<rparr>
       [Sample (at_point 0 0), Sample (at_point 0 0)])) = [] \<and>
   ''A'' \<notin> set (lastKnownRegions (fst (run \<lparr>geofenceRegions = [], lastKnownRegions = [''A'']\<rparr>
       [Sample (at_point 0 0), Sample (at_point 0 0)])))"
  using C1_absent_zone_dropped_silently
     [of "''A''" "\<lparr>geofenceRegions = [], lastKnownRegions = [''A'']\<rparr>"
         "[Sample (at_point 0 0), Sample (at_point 0 0)]"]
  by simp

subsection \<open>Cycles that overlap, and schedules without overlap\<close>

text \<open>
  A suspended call that is resumed with nothing in between ends as the cycle that is not
  interrupted; so a schedule without overlap emits what \<open>run\<close> emits.
\<close>

lemma outcome_simps:
  "outcome this (Finished this') = (this', [])"
  "outcome this (Suspended ev k) = (fst (rest_of_cycle this k), ev # snd (rest_of_cycle this k))"
  by (simp_all add: outcome_def)

lemma outcome_resume_exits:
  "outcome this (resume_exits this loc rest cur) =
     (this\<lparr>lastKnownRegions := cur\<rparr>, check_exits (geofenceRegions this) cur loc rest)"
  by (induction rest) (simp_all add: outcome_simps split: option.split)

lemma outcome_resume_entries:
  "outcome this (resume_entries this loc rest cur) = rest_of_cycle this (In_entries loc rest cur)"
  by (induction rest arbitrary: cur)
     (simp_all add: outcome_resume_exits Let_def case_prod_beta outcome_simps)

lemma outcome_resume: "outcome this (resume this k) = rest_of_cycle this k"
  by (cases k) (simp_all add: outcome_resume_entries outcome_resume_exits)

lemma outcome_start_cycle: "outcome this (start_cycle this loc) = checkGeofenceEvents this loc"
  by (simp add: start_cycle_def outcome_resume_entries checkGeofenceEvents_def)

text \<open>A step of a schedule without overlap, against the cycle that is not interrupted.\<close>

lemma settle_events:
  "snd (settle st [] res) @ snd (settled (fst (settle st [] res))) = snd (outcome (service st) res)"
  by (cases res) (simp_all add: settle_def settled_def outcome_simps)

lemma settle_state:
  "fst (settled (fst (settle st [] res))) = fst (outcome (service st) res)"
  by (cases res) (simp_all add: settle_def settled_def outcome_simps)

lemma settle_pending:
  "length (pending (fst (settle st [] res))) \<le> 1"
  by (cases res) (simp_all add: settle_def)

lemma exec_cons:
  "exec st (a # sched) =
     (fst (exec (fst (exec_step st a)) sched),
      snd (exec_step st a) @ snd (exec (fst (exec_step st a)) sched))"
  by (simp add: case_prod_beta Let_def)

lemma run_Load: "run this (Load response # steps) = run (loadGeofenceRegions response this) steps"
  by simp

lemma sim_step:
  assumes "fst (settled F) = fst (run (fst (settled S')) steps) \<and>
           E' @ snd (settled F) = snd (settled S') @ snd (run (fst (settled S')) steps)"
    and "fst (settled S') = c" "e @ snd (settled S') = pre"
  shows "fst (settled F) = fst (run c steps) \<and>
         (e @ E') @ snd (settled F) = pre @ snd (run c steps)"
  using assms by (metis append_assoc)

lemma exec_no_overlap:
  assumes "length (pending st) \<le> 1" "no_overlap st sched"
  shows "fst (settled (fst (exec st sched))) = fst (run (fst (settled st)) (steps_of sched)) \<and>
         snd (exec st sched) @ snd (settled (fst (exec st sched))) =
           snd (settled st) @ snd (run (fst (settled st)) (steps_of sched))"
  using assms
proof (induction sched arbitrary: st)
  case Nil
  then show ?case by simp
next
  case (Cons a sched)
  let ?st' = "fst (exec_step st a)"
  show ?case
  proof (cases a)
    case (Do step)
    then have p: "pending st = []" and n: "no_overlap ?st' sched"
      using Cons.prems(2) by simp_all
    have s0: "settled st = (service st, [])" by (simp add: settled_def p)
    show ?thesis
    proof (cases step)
      case (Sample loc)
      have e: "exec_step st a = settle st [] (start_cycle (service st) loc)"
        by (simp add: Do Sample p)
      have l: "length (pending ?st') \<le> 1" unfolding e by (rule settle_pending)
      have st: "fst (settled ?st') = fst (checkGeofenceEvents (service st) loc)"
        unfolding e settle_state outcome_start_cycle ..
      have ev: "snd (exec_step st a) @ snd (settled ?st') = snd (checkGeofenceEvents (service st) loc)"
        unfolding e settle_events outcome_start_cycle ..
      have r: "steps_of (a # sched) = Sample loc # steps_of sched" by (simp add: Do Sample)
      show ?thesis
        unfolding exec_cons r run_Sample s0 fst_conv snd_conv append_Nil
        by (rule sim_step [OF Cons.IH [OF l n] st ev])
    next
      case (Load response)
      have e: "exec_step st a = (st\<lparr>service := loadGeofenceRegions response (service st)\<rparr>, [])"
        by (simp add: Do Load)
      have l: "length (pending ?st') \<le> 1" unfolding e by (simp add: p)
      have s': "settled ?st' = (loadGeofenceRegions response (service st), [])"
        unfolding e by (simp add: settled_def p)
      have st: "fst (settled ?st') = loadGeofenceRegions response (service st)"
        unfolding s' by simp
      have ev: "snd (exec_step st a) @ snd (settled ?st') = []"
        unfolding s' by (simp add: e)
      have r: "steps_of (a # sched) = Load response # steps_of sched" by (simp add: Do Load)
      show ?thesis
        unfolding exec_cons r run_Load s0 fst_conv snd_conv
        using sim_step [OF Cons.IH [OF l n] st ev] by simp
    qed
  next
    case (Resume i)
    then have n: "no_overlap ?st' sched" using Cons.prems(2) by simp
    have r: "steps_of (a # sched) = steps_of sched" by (simp add: Resume)
    show ?thesis
    proof (cases "i < length (pending st)")
      case False
      then have e: "exec_step st a = (st, [])" by (simp add: Resume)
      have l: "length (pending ?st') \<le> 1" unfolding e using Cons.prems(1) by simp
      have st: "fst (settled ?st') = fst (settled st)" unfolding e by simp
      have ev: "snd (exec_step st a) @ snd (settled ?st') = snd (settled st)" unfolding e by simp
      show ?thesis
        unfolding exec_cons r fst_conv snd_conv
        by (rule sim_step [OF Cons.IH [OF l n] st ev])
    next
      case True
      then obtain k where p: "pending st = [k]" and i: "i = 0"
        using Cons.prems(1) by (cases "pending st") auto
      have e: "exec_step st a = settle st [] (resume (service st) k)"
        by (simp add: Resume p i)
      have l: "length (pending ?st') \<le> 1" unfolding e by (rule settle_pending)
      have s0: "settled st = rest_of_cycle (service st) k" by (simp add: settled_def p)
      have st: "fst (settled ?st') = fst (settled st)"
        unfolding e settle_state outcome_resume s0 ..
      have ev: "snd (exec_step st a) @ snd (settled ?st') = snd (settled st)"
        unfolding e settle_events outcome_resume s0 ..
      show ?thesis
        unfolding exec_cons r fst_conv snd_conv
        by (rule sim_step [OF Cons.IH [OF l n] st ev])
    qed
  qed
qed

text \<open>Alternation under registry loads that keep the zone.\<close>

lemma alternating_kept:
  assumes "zone_kept z this steps" "distinct (lastKnownRegions this)"
  shows "alternating (events_for z (snd (run this steps))) \<and>
         (events_for z (snd (run this steps)) \<noteq> [] \<longrightarrow>
            hd (events_for z (snd (run this steps))) =
              (if z \<in> set (lastKnownRegions this) then Exit else Enter))"
  using assms
proof (induction steps arbitrary: this)
  case Nil
  then show ?case by (simp add: events_for_def)
next
  case (Cons s steps)
  show ?case
  proof (cases s)
    case (Sample loc)
    let ?this' = "fst (checkGeofenceEvents this loc)"
    have d: "distinct (map regionId (geofenceRegions this))"
      and k: "z \<in> set (lastKnownRegions this) \<longrightarrow> z \<in> regionId ` set (geofenceRegions this)"
      and k': "zone_kept z ?this' steps"
      using Cons.prems(1) unfolding Sample by simp_all
    define inz where
      "inz \<longleftrightarrow> (\<exists>r\<in>set (geofenceRegions this). regionId r = z \<and> inside_zone loc r)"
    define rest where "rest = events_for z (snd (run ?this' steps))"
    have mem: "z \<in> set (lastKnownRegions ?this') \<longleftrightarrow> inz"
      unfolding checkGeofenceEvents_lastKnown inz_def by auto
    have "alternating (events_for z (snd (run ?this' steps))) \<and>
           (events_for z (snd (run ?this' steps)) \<noteq> [] \<longrightarrow>
              hd (events_for z (snd (run ?this' steps))) =
                (if z \<in> set (lastKnownRegions ?this') then Exit else Enter))"
      by (rule Cons.IH [OF k' checkGeofenceEvents_distinct])
    then have IH': "alternating rest" "rest \<noteq> [] \<longrightarrow> hd rest = (if inz then Exit else Enter)"
      unfolding mem rest_def by simp_all
    have ev: "events_for z (snd (run this (s # steps))) =
         (if inz \<and> z \<notin> set (lastKnownRegions this) then [Enter]
          else if \<not> inz \<and> z \<in> set (lastKnownRegions this) then [Exit] else []) @ rest"
      unfolding Sample run_Sample snd_conv events_for_append
        checkGeofenceEvents_events [OF d Cons.prems(2)] inz_def rest_def
      using k by simp
    show ?thesis
    proof (cases inz)
      case inz: True
      show ?thesis
      proof (cases "z \<in> set (lastKnownRegions this)")
        case True
        then show ?thesis using IH' inz unfolding ev by simp
      next
        case False
        then show ?thesis using IH' inz unfolding ev by (auto simp: alternating_Cons)
      qed
    next
      case ninz: False
      show ?thesis
      proof (cases "z \<in> set (lastKnownRegions this)")
        case True
        then show ?thesis using IH' ninz unfolding ev by (auto simp: alternating_Cons)
      next
        case False
        then show ?thesis using IH' ninz unfolding ev by simp
      qed
    qed
  next
    case (Load response)
    have l: "lastKnownRegions (loadGeofenceRegions response this) = lastKnownRegions this"
      by (simp add: loadGeofenceRegions_def split: regions_response.split option.split)
    show ?thesis
      using Cons.IH [of "loadGeofenceRegions response this"] Cons.prems
      unfolding Load by (simp add: l)
  qed
qed

lemma alternating_prefix: "alternating (xs @ ys) \<Longrightarrow> alternating xs"
proof (induction xs rule: alternating.induct)
  case 1
  then show ?case by simp
next
  case (2 e)
  then show ?case by simp
next
  case (3 e e' es)
  then show ?case by simp
qed

lemma alternating_without_overlap:
  assumes "pending st = []" and "distinct (lastKnownRegions (service st))"
    and "no_overlap st sched" and "zone_kept z (service st) (steps_of sched)"
  shows "alternating (events_for z (snd (exec st sched)))"
proof -
  have s: "settled st = (service st, [])" by (simp add: settled_def assms(1))
  have "snd (exec st sched) @ snd (settled (fst (exec st sched))) =
          snd (run (service st) (steps_of sched))"
    using exec_no_overlap [OF _ assms(3)] assms(1) unfolding s by simp
  then have "events_for z (snd (exec st sched)) @
               events_for z (snd (settled (fst (exec st sched)))) =
             events_for z (snd (run (service st) (steps_of sched)))"
    by (metis events_for_append)
  then show ?thesis
    using alternating_kept [OF assms(4,2)] alternating_prefix by metis
qed

lemma start_A:
  "start_cycle \<lparr>geofenceRegions = [zone_A], lastKnownRegions = []\<rparr> (at_point 0 0) =
     Suspended \<lparr>eventType = Enter, region = zone_A, sample = at_point 0 0\<rparr>
       (In_entries (at_point 0 0) [] [''A''])"
  "start_cycle \<lparr>geofenceRegions = [zone_A], lastKnownRegions = [''A'']\<rparr> (at_point 0 0) =
     Finished \<lparr>geofenceRegions = [zone_A], lastKnownRegions = [''A'']\<rparr>"
  by (simp_all add: start_cycle_def Let_def Set_add_def zone_A_fields at_point_fields
        distance_same_point js_le_def)

lemma resume_A:
  "resume \<lparr>geofenceRegions = [zone_A], lastKnownRegions = []\<rparr>
     (In_entries (at_point 0 0) [] [''A'']) =
     Finished \<lparr>geofenceRegions = [zone_A], lastKnownRegions = [''A'']\<rparr>"
  "resume \<lparr>geofenceRegions = [zone_A], lastKnownRegions = [''A'']\<rparr>
     (In_entries (at_point 0 0) [] [''A'']) =
     Finished \<lparr>geofenceRegions = [zone_A], lastKnownRegions = [''A'']\<rparr>"
  by simp_all

text \<open>
  Claim C6 fails on the code, in two ways. When the registry changes between samples:
  the app enters zone A; a failed reload empties the registry, and the next sample drops
  A from the stored set without an exit event; the registry is loaded again, and the next
  sample emits a second enter event for A. And when two detection cycles overlap on an
  unchanged registry: the first sample emits the enter event for A and suspends in
  \<open>await handleGeofenceEvent\<close>; the second sample arrives before
  \<open>lastKnownRegions\<close> is assigned, finds A not stored, and emits a second enter event.
\<close>

theorem C6_counterexample:
  "events_for ''A'' (snd (run new_LocationService
      [Load (Fetched (Some [zone_A])), Sample (at_point 0 0),
       Load FetchError, Sample (at_point 0 0),
       Load (Fetched (Some [zone_A])), Sample (at_point 0 0)])) = [Enter, Enter] \<and>
   \<not> alternating (events_for ''A'' (snd (run new_LocationService
      [Load (Fetched (Some [zone_A])), Sample (at_point 0 0),
       Load FetchError, Sample (at_point 0 0),
       Load (Fetched (Some [zone_A])), Sample (at_point 0 0)]))) \<and>
   events_for ''A'' (snd (exec \<lparr>service = new_LocationService, pending = []\<rparr>
      [Do (Load (Fetched (Some [zone_A]))),
       Do (Sample (at_point 0 0)), Do (Sample (at_point 0 0)),
       Resume 0, Resume 0])) = [Enter, Enter]"
proof -
  have a: "events_for ''A'' (snd (run new_LocationService
      [Load (Fetched (Some [zone_A])), Sample (at_point 0 0),
       Load FetchError, Sample (at_point 0 0),
       Load (Fetched (Some [zone_A])), Sample (at_point 0 0)])) = [Enter, Enter]"
    by (simp add: new_LocationService_def loadGeofenceRegions_def check_A_enters
         check_empty_registry events_for_def zone_A_fields Let_def)
  have b: "events_for ''A'' (snd (exec \<lparr>service = new_LocationService, pending = []\<rparr>
      [Do (Load (Fetched (Some [zone_A]))),
       Do (Sample (at_point 0 0)), Do (Sample (at_point 0 0)),
       Resume 0, Resume 0])) = [Enter, Enter]"
    by (simp add: new_LocationService_def loadGeofenceRegions_def settle_def start_A resume_A
         events_for_def zone_A_fields Let_def)
  show ?thesis unfolding a b by simp
qed

text \<open>
  Claim C6, amended. When detection cycles do not overlap (every cycle ends before the
  next sample or registry load is processed) and the registry keeps the zone (at every
  cycle the registry in force has distinct region ids, and contains the zone if the zone
  is stored as inside), then for every sequence of samples and registry loads the enter
  and exit events emitted for the zone strictly alternate, so the number of enter events
  and the number of exit events for the zone differ by at most one; this holds at every
  moment, also while the last cycle is suspended. And in one cycle that runs without
  interruption, on a registry with distinct ids, an event is emitted for a zone exactly
  when the classification of the sample differs from the stored state (an enter when the
  sample is inside and the zone is not stored, an exit when it is outside and the zone
  is stored and in the registry), never otherwise. \<open>lastKnownRegions\<close> is a set, that
  is, a list without duplicates; the ids of a registry are distinct because the backend
  declares \<open>regionId\<close> unique.
\<close>

theorem C6_alternation_without_overlap:
  assumes "pending st = []" and "distinct (lastKnownRegions (service st))"
    and "no_overlap st sched" and "zone_kept z (service st) (steps_of sched)"
  shows "alternating (events_for z (snd (exec st sched))) \<and>
         \<bar>int (length (filter (\<lambda>e. e = Enter) (events_for z (snd (exec st sched))))) -
          int (length (filter (\<lambda>e. e = Exit) (events_for z (snd (exec st sched)))))\<bar> \<le> 1 \<and>
         (distinct (map regionId (geofenceRegions svc)) \<and> distinct (lastKnownRegions svc) \<longrightarrow>
          events_for z (snd (checkGeofenceEvents svc loc)) =
           (if (\<exists>r\<in>set (geofenceRegions svc). regionId r = z \<and> inside_zone loc r)
               \<and> z \<notin> set (lastKnownRegions svc) then [Enter]
            else if \<not> (\<exists>r\<in>set (geofenceRegions svc). regionId r = z \<and> inside_zone loc r)
               \<and> z \<in> set (lastKnownRegions svc)
               \<and> z \<in> regionId ` set (geofenceRegions svc) then [Exit]
            else []))"
proof -
  have a: "alternating (events_for z (snd (exec st sched)))"
    using assms by (rule alternating_without_overlap)
  show ?thesis
    using a alternating_balance [OF a] checkGeofenceEvents_events [of svc z loc]
    by simp
qed

theorem C6_alternation_without_overlap_witness:
  "alternating (events_for ''A'' (snd (exec
      \<lparr>service = \<lparr>geofenceRegions = [zone_A], lastKnownRegions = []\<rparr>, pending = []\<rparr>
      [Do (Sample (at_point 0 0)), Resume 0,
       Do (Load (Fetched (Some [zone_A]))), Do (Sample (at_point 0 0))]))) \<and>
   events_for ''A'' (snd (checkGeofenceEvents
       \<lparr>geofenceRegions = [zone_A], lastKnownRegions = []\<rparr> (at_point 0 0))) = [Enter]"
proof -
  let ?svc = "\<lparr>geofenceRegions = [zone_A], lastKnownRegions = []\<rparr>"
  let ?st = "\<lparr>service = ?svc, pending = []\<rparr>"
  let ?sched = "[Do (Sample (at_point 0 0)), Resume 0,
       Do (Load (Fetched (Some [zone_A]))), Do (Sample (at_point 0 0))]"
  have p: "pending ?st = []" by simp
  have d: "distinct (lastKnownRegions (service ?st))" by simp
  have n: "no_overlap ?st ?sched"
    by (simp add: settle_def start_A resume_A loadGeofenceRegions_def)
  have k: "zone_kept ''A'' (service ?st) (steps_of ?sched)"
    by (simp add: check_A_enters loadGeofenceRegions_def zone_A_fields)
  have i: "distinct (map regionId (geofenceRegions ?svc)) \<and> distinct (lastKnownRegions ?svc)"
    by simp
  show ?thesis
    using C6_alternation_without_overlap [OF p d n k, of ?svc "at_point 0 0"] i center_inside
    by (simp add: zone_A_fields)
qed

section \<open>Properties of the attendance route\<close>

lemma post_valid:
  "validation_errors body = [] \<Longrightarrow>
   post_attendance_log usr now body db =
     (case policy_regionId body of
        None \<Rightarrow> save_and_respond (new_AttendanceLog usr now body) db
      | Some rid \<Rightarrow>
          (case findOne (regions db) rid of
             None \<Rightarrow> (rejected 400 ''Invalid or inactive geofence region'', db)
           | Some r \<Rightarrow>
               if \<not> isUserAllowed r (u_id usr) then
                 (rejected 403 ''User not allowed in this geofence region'', db)
               else if type body = ''geofence_enter'' \<and>
                       \<not> isPointInside r (latitude (location body)) (longitude (location body)) then
                 (rejected 400 ''Location is not within the geofence region'', db)
               else save_and_respond (new_AttendanceLog usr now body) db))"
  by (simp add: post_attendance_log_def Let_def split: option.split)

lemma rejected_simps:
  "status (rejected code msg) = code" "success (rejected code msg) = False"
  "res_log (rejected code msg) = None" "message (rejected code msg) = msg"
  by (simp_all add: rejected_def)

lemma save_simps:
  "schema_valid doc \<Longrightarrow> status (fst (save_and_respond doc db)) = 201"
  "schema_valid doc \<Longrightarrow> res_log (fst (save_and_respond doc db)) = Some doc"
  "schema_valid doc \<Longrightarrow> snd (save_and_respond doc db) = db\<lparr>logs := logs db @ [doc]\<rparr>"
  "\<not> schema_valid doc \<Longrightarrow> save_and_respond doc db = (rejected 500 ''Server error while logging attendance'', db)"
  by (simp_all add: save_and_respond_def)

lemma save_appends_one:
  "(case res_log (fst (save_and_respond doc db)) of
      Some d \<Rightarrow> status (fst (save_and_respond doc db)) = 201 \<and>
                  snd (save_and_respond doc db) = db\<lparr>logs := logs db @ [d]\<rparr>
    | None \<Rightarrow> status (fst (save_and_respond doc db)) \<noteq> 201 \<and>
              snd (save_and_respond doc db) = db)"
  by (cases "schema_valid doc") (simp_all add: save_simps rejected_simps)

lemma post_appends_one:
  "(case res_log (fst (post_attendance_log usr now body db)) of
      Some doc \<Rightarrow> status (fst (post_attendance_log usr now body db)) = 201 \<and>
                  snd (post_attendance_log usr now body db) = db\<lparr>logs := logs db @ [doc]\<rparr>
    | None \<Rightarrow> status (fst (post_attendance_log usr now body db)) \<noteq> 201 \<and>
              snd (post_attendance_log usr now body db) = db)"
proof (cases "validation_errors body = []")
  case False
  then show ?thesis by (simp add: post_attendance_log_def)
next
  case True
  show ?thesis
    unfolding post_valid [OF True]
    using save_appends_one [of "new_AttendanceLog usr now body" db]
    by (auto simp: rejected_simps split: option.splits)
qed

lemma schema_valid_doc:
  assumes "validation_errors body = []"
    and "u_id usr \<noteq> []" "u_name usr \<noteq> []" "u_employeeId usr \<noteq> []"
    and "(case timestamp body of None \<Rightarrow> now | Some t \<Rightarrow> t) \<noteq> InvalidDate"
  shows "schema_valid (new_AttendanceLog usr now body)"
proof -
  have t: "type body \<in> set [''login'', ''logout'', ''geofence_enter'', ''geofence_exit'']"
    and la: "- 90 \<le> latitude (location body) \<and> latitude (location body) \<le> 90"
    and lo: "- 180 \<le> longitude (location body) \<and> longitude (location body) \<le> 180"
    and n: "case data_notes body of None \<Rightarrow> True | Some n \<Rightarrow> length n \<le> 500"
    using assms(1) unfolding validation_errors_def
    by (simp_all split: if_splits option.splits)
  have n': "case str_or_null (data_notes body) of None \<Rightarrow> True | Some n \<Rightarrow> length n \<le> 500"
    using n by (simp add: str_or_null_def split: option.splits)
  show ?thesis
    unfolding schema_valid_def new_AttendanceLog_def
    using t la lo n' assms(2-5) by simp
qed

lemma policy_regionId_Some:
  assumes "type body = ''geofence_enter'' \<or> type body = ''geofence_exit''"
    and "data_regionId body = Some rid" "rid \<noteq> []"
  shows "policy_regionId body = Some rid"
  using assms by (simp add: policy_regionId_def str_or_null_def)

lemma zone_B_fields:
  "regionId zone_B = ''B''" "latitude (center zone_B) = 0" "longitude (center zone_B) = 0"
  "radius zone_B = 100" "isActive zone_B" "allowedUsers zone_B = [''u2'']"
  by (simp_all add: zone_B_def)

lemma findOne_AB:
  "findOne (regions backend_AB) ''A'' = Some zone_A"
  "findOne (regions backend_AB) ''B'' = Some zone_B"
  "findOne [zone_A, zone_B] ''A'' = Some zone_A"
  "findOne [zone_A, zone_B] ''B'' = Some zone_B"
  by (simp_all add: findOne_def backend_AB_def zone_A_fields zone_B_fields)

lemma geofence_request_fields:
  "type (geofence_request t rid loc) = t"
  "location (geofence_request t rid loc) = loc"
  "data_regionId (geofence_request t rid loc) = Some rid"
  "data_notes (geofence_request t rid loc) = None"
  "timestamp (geofence_request t rid loc) = Some (Date 0)"
  by (simp_all add: geofence_request_def)

lemma employee_fields:
  "u_id employee = ''u1''" "u_name employee = ''Mike Johnson''" "u_employeeId employee = ''EMP003''"
  by (simp_all add: employee_def)

lemma request_valid:
  assumes "t = ''geofence_enter'' \<or> t = ''geofence_exit''"
    and "- 90 \<le> lat" "lat \<le> 90" "- 180 \<le> lon" "lon \<le> 180"
  shows "validation_errors (geofence_request t rid (at_point lat lon)) = []"
  using assms
  by (auto simp: validation_errors_def geofence_request_fields at_point_fields)

lemma request_valid_deviceInfo:
  "validation_errors (d\<lparr>deviceInfo := x\<rparr>) = validation_errors d"
  "validation_errors (d\<lparr>failedAt := y\<rparr>) = validation_errors d"
  by (simp_all add: validation_errors_def)

lemma request_schema_valid:
  assumes "t = ''geofence_enter'' \<or> t = ''geofence_exit''"
    and "- 90 \<le> lat" "lat \<le> 90" "- 180 \<le> lon" "lon \<le> 180"
  shows "schema_valid (new_AttendanceLog employee now' (geofence_request t rid (at_point lat lon)))"
  by (rule schema_valid_doc [OF request_valid [OF assms]])
     (simp_all add: employee_fields geofence_request_fields)

text \<open>
  Claim C2 fails on the code. The same geofence request, posted twice by the same user,
  is accepted twice and persisted twice: the route builds a new document for every
  request and saves it, and neither the request nor the schema has a \<open>localId\<close> or
  any other key by which a second submission could be recognised.
\<close>

theorem C2_counterexample:
  "status (fst (post_attendance_log employee (Date 1)
      (geofence_request ''geofence_enter'' ''A'' (at_point 0 0)) backend_AB)) = 201 \<and>
   status (fst (post_attendance_log employee (Date 2)
      (geofence_request ''geofence_enter'' ''A'' (at_point 0 0))
      (snd (post_attendance_log employee (Date 1)
         (geofence_request ''geofence_enter'' ''A'' (at_point 0 0)) backend_AB)))) = 201 \<and>
   logs (snd (post_attendance_log employee (Date 2)
      (geofence_request ''geofence_enter'' ''A'' (at_point 0 0))
      (snd (post_attendance_log employee (Date 1)
         (geofence_request ''geofence_enter'' ''A'' (at_point 0 0)) backend_AB)))) =
     [new_AttendanceLog employee (Date 1) (geofence_request ''geofence_enter'' ''A'' (at_point 0 0)),
      new_AttendanceLog employee (Date 2) (geofence_request ''geofence_enter'' ''A'' (at_point 0 0))]"
proof -
  let ?req = "geofence_request ''geofence_enter'' ''A'' (at_point 0 0)"
  have v: "validation_errors ?req = []" by (simp add: request_valid)
  have p: "policy_regionId ?req = Some ''A''"
    by (simp add: policy_regionId_Some geofence_request_fields)
  have a: "isUserAllowed zone_A (u_id employee)"
    by (simp add: isUserAllowed_def zone_A_fields)
  have i: "isPointInside zone_A (latitude (location ?req)) (longitude (location ?req))"
    using center_inside
    by (simp add: isPointInside_inside_zone geofence_request_fields)
  have s: "schema_valid (new_AttendanceLog employee n ?req)" for n
    by (simp add: request_schema_valid)
  have r: "regions (db\<lparr>logs := l\<rparr>) = regions db" for db :: backend and l by simp
  have one: "findOne (regions db) ''A'' = Some zone_A \<Longrightarrow>
     post_attendance_log employee n ?req db =
       (\<lparr>status = 201, success = True, message = ''Attendance logged successfully'',
          errors = [], res_log = Some (new_AttendanceLog employee n ?req)\<rparr>,
        db\<lparr>logs := logs db @ [new_AttendanceLog employee n ?req]\<rparr>)" for n db
    unfolding post_valid [OF v] by (simp add: p a i s save_and_respond_def)
  show ?thesis
    by (simp add: one findOne_AB r) (simp add: backend_AB_def)
qed

text \<open>
  Claim C2, amended. The server keeps no idempotency key: every request to
  \<open>POST /api/attendance/log\<close> that is accepted (201) appends exactly one new record to
  the collection, the one returned in the response, and a request that is not accepted
  leaves the collection unchanged. An event that is submitted again and accepted again
  therefore has one record for each accepted submission.
\<close>

theorem C2_one_record_per_accepted_request:
  "(case res_log (fst (post_attendance_log usr now body db)) of
      Some doc \<Rightarrow> status (fst (post_attendance_log usr now body db)) = 201 \<and>
                  snd (post_attendance_log usr now body db) = db\<lparr>logs := logs db @ [doc]\<rparr>
    | None \<Rightarrow> status (fst (post_attendance_log usr now body db)) \<noteq> 201 \<and>
              snd (post_attendance_log usr now body db) = db)"
  by (rule post_appends_one)

text \<open>
  Claim C5. For a geofence request that passes the validation chain and names an
  existing active zone: a \<open>geofence_enter\<close> whose coordinates are not inside the zone
  is rejected (400, or 403 when the user is not allowed either) and nothing is persisted;
  a \<open>geofence_exit\<close> of an allowed user is accepted and persisted whatever its
  coordinates are, provided the document passes the schema validation of \<open>save\<close>;
  and the containment the server recomputes is \<open>distance \<le> radius\<close> with the
  distance that \<open>calculateDistance\<close> of the app computes from the centre.
\<close>

theorem C5_enter_rechecked_exit_accepted:
  assumes "validation_errors body = []"
    and "data_regionId body = Some rid" "rid \<noteq> []"
    and "findOne (regions db) rid = Some r"
  shows "(type body = ''geofence_enter'' \<and>
          \<not> isPointInside r (latitude (location body)) (longitude (location body)) \<longrightarrow>
            (status (fst (post_attendance_log usr now body db)) = 400 \<or>
             status (fst (post_attendance_log usr now body db)) = 403) \<and>
            success (fst (post_attendance_log usr now body db)) = False \<and>
            snd (post_attendance_log usr now body db) = db) \<and>
         (type body = ''geofence_exit'' \<and> isUserAllowed r (u_id usr) \<and>
          schema_valid (new_AttendanceLog usr now body) \<longrightarrow>
            status (fst (post_attendance_log usr now body db)) = 201 \<and>
            snd (post_attendance_log usr now body db) =
              db\<lparr>logs := logs db @ [new_AttendanceLog usr now body]\<rparr>) \<and>
         isPointInside r lat lon =
           js_le (calculateDistance (latitude (center r)) (longitude (center r)) lat lon)
             (radius r)"
proof -
  have enter: "policy_regionId body = Some rid" if "type body = ''geofence_enter''"
    using that assms(2,3) by (simp add: policy_regionId_Some)
  have exit: "policy_regionId body = Some rid" if "type body = ''geofence_exit''"
    using that assms(2,3) by (simp add: policy_regionId_Some)
  show ?thesis
    unfolding post_valid [OF assms(1)]
    by (simp add: enter exit assms(4) rejected_simps save_simps
          isPointInside_getDistance getDistanceFromCenter_calculateDistance)
qed

theorem C5_enter_rechecked_exit_accepted_witness:
  "((status (fst (post_attendance_log employee (Date 1)
       (geofence_request ''geofence_enter'' ''A'' (at_point 0.01 0.01)) backend_AB)) = 400 \<or>
     status (fst (post_attendance_log employee (Date 1)
       (geofence_request ''geofence_enter'' ''A'' (at_point 0.01 0.01)) backend_AB)) = 403) \<and>
    snd (post_attendance_log employee (Date 1)
       (geofence_request ''geofence_enter'' ''A'' (at_point 0.01 0.01)) backend_AB) = backend_AB) \<and>
   (status (fst (post_attendance_log employee (Date 1)
       (geofence_request ''geofence_exit'' ''A'' (at_point 0.01 0.01)) backend_AB)) = 201 \<and>
    snd (post_attendance_log employee (Date 1)
       (geofence_request ''geofence_exit'' ''A'' (at_point 0.01 0.01)) backend_AB) =
      backend_AB\<lparr>logs := logs backend_AB @ [new_AttendanceLog employee (Date 1)
         (geofence_request ''geofence_exit'' ''A'' (at_point 0.01 0.01))]\<rparr>)"
proof -
  let ?enter = "geofence_request ''geofence_enter'' ''A'' (at_point 0.01 0.01)"
  let ?exit = "geofence_request ''geofence_exit'' ''A'' (at_point 0.01 0.01)"
  have ne: "''A'' \<noteq> []" by simp
  have f: "findOne (regions backend_AB) ''A'' = Some zone_A" by (simp add: findOne_AB)
  have v1: "validation_errors ?enter = []" by (simp add: request_valid)
  have r1: "data_regionId ?enter = Some ''A''" by (simp add: geofence_request_fields)
  have t1: "type ?enter = ''geofence_enter''" by (simp add: geofence_request_fields)
  have o1: "\<not> isPointInside zone_A (latitude (location ?enter)) (longitude (location ?enter))"
    using far_outside isPointInside_inside_zone [of zone_A "at_point 0.01 0.01"]
    by (simp add: geofence_request_fields)
  have v2: "validation_errors ?exit = []" by (simp add: request_valid)
  have r2: "data_regionId ?exit = Some ''A''" by (simp add: geofence_request_fields)
  have t2: "type ?exit = ''geofence_exit''" by (simp add: geofence_request_fields)
  have a2: "isUserAllowed zone_A (u_id employee)"
    by (simp add: isUserAllowed_def zone_A_fields)
  have s2: "schema_valid (new_AttendanceLog employee (Date 1) ?exit)"
    by (simp add: request_schema_valid)
  show ?thesis
    using C5_enter_rechecked_exit_accepted [OF v1 r1 ne f, of employee "Date 1"] t1 o1
      C5_enter_rechecked_exit_accepted [OF v2 r2 ne f, of employee "Date 1"] t2 a2 s2
    by blast
qed

text \<open>
  Claim C8. For a geofence request that passes the validation chain and names an
  existing active zone: if the zone's \<open>allowedUsers\<close> is non-empty and does not contain
  the submitting user's id, the response is 403 and nothing is persisted, for an enter
  and for an exit and whatever the coordinates are; if \<open>allowedUsers\<close> is empty, the
  user is allowed, whoever it is, and the response is not 403.
\<close>

theorem C8_membership:
  assumes "validation_errors body = []"
    and "type body = ''geofence_enter'' \<or> type body = ''geofence_exit''"
    and "data_regionId body = Some rid" "rid \<noteq> []"
    and "findOne (regions db) rid = Some r"
  shows "(allowedUsers r \<noteq> [] \<and> u_id usr \<notin> set (allowedUsers r) \<longrightarrow>
            status (fst (post_attendance_log usr now body db)) = 403 \<and>
            success (fst (post_attendance_log usr now body db)) = False \<and>
            snd (post_attendance_log usr now body db) = db) \<and>
         (allowedUsers r = [] \<longrightarrow>
            isUserAllowed r (u_id usr) \<and>
            status (fst (post_attendance_log usr now body db)) \<noteq> 403)"
proof -
  have p: "policy_regionId body = Some rid"
    using assms(2-4) by (rule policy_regionId_Some)
  have s: "status (fst (save_and_respond doc db)) \<noteq> 403" for doc
    by (simp add: save_and_respond_def rejected_simps)
  show ?thesis
    unfolding post_valid [OF assms(1)]
    by (simp add: p assms(5) rejected_simps isUserAllowed_def s)
qed

theorem C8_membership_witness:
  "status (fst (post_attendance_log employee (Date 1)
       (geofence_request ''geofence_exit'' ''B'' (at_point 0 0)) backend_AB)) = 403 \<and>
   snd (post_attendance_log employee (Date 1)
       (geofence_request ''geofence_exit'' ''B'' (at_point 0 0)) backend_AB) = backend_AB \<and>
   isUserAllowed zone_A (u_id employee) \<and>
   status (fst (post_attendance_log employee (Date 1)
       (geofence_request ''geofence_exit'' ''A'' (at_point 0 0)) backend_AB)) \<noteq> 403"
  using C8_membership
      [of "geofence_request ''geofence_exit'' ''B'' (at_point 0 0)" "''B''"
          backend_AB zone_B employee "Date 1"]
    C8_membership
      [of "geofence_request ''geofence_exit'' ''A'' (at_point 0 0)" "''A''"
          backend_AB zone_A employee "Date 1"]
  by (simp add: request_valid geofence_request_fields findOne_AB zone_A_fields
        zone_B_fields employee_fields)

text \<open>
  Claim C9. A \<open>geofence_enter\<close> or \<open>geofence_exit\<close> request that passes the
  validation chain and has no \<open>regionId\<close> (absent or null) is answered with 201 and
  persisted: the collection gains one document, which holds the user's id, name and
  employee id, the type, the coordinates and the other location properties of the
  request, its timestamp (the time of the request if it has none), its device info and
  notes, and \<open>regionId\<close> null. This holds provided \<open>save\<close> accepts the document,
  that is, the user has an id, a name and an employee id and the timestamp is a date. No
  zone-policy check takes part: the response is the same with any other collection of
  regions.
\<close>

theorem C9_no_region_no_policy_check:
  assumes "validation_errors body = []"
    and "type body = ''geofence_enter'' \<or> type body = ''geofence_exit''"
    and "data_regionId body = None"
    and "u_id usr \<noteq> []" "u_name usr \<noteq> []" "u_employeeId usr \<noteq> []"
    and "(case timestamp body of None \<Rightarrow> now | Some t \<Rightarrow> t) \<noteq> InvalidDate"
  shows "status (fst (post_attendance_log usr now body db)) = 201 \<and>
         snd (post_attendance_log usr now body db) =
           db\<lparr>logs := logs db @
              [\<lparr>userId = u_id usr,
                username = u_name usr,
                employeeId = u_employeeId usr,
                log_type = type body,
                log_location =
                  \<lparr>latitude = latitude (location body),
                   longitude = longitude (location body),
                   accuracy = num_or_zero (accuracy (location body)),
                   altitude = num_or_null (altitude (location body)),
                   heading = num_or_null (heading (location body)),
                   speed = num_or_null (speed (location body))\<rparr>,
                log_regionId = None,
                log_timestamp = (case timestamp body of None \<Rightarrow> now | Some t \<Rightarrow> t),
                log_deviceInfo =
                  (case deviceInfo body of
                     None \<Rightarrow> \<lparr>platform = None, version = None\<rparr>
                   | Some d \<Rightarrow> d),
                log_notes = str_or_null (data_notes body)\<rparr>]\<rparr> \<and>
         res_log (fst (post_attendance_log usr now body db)) =
           Some (last (logs (snd (post_attendance_log usr now body db)))) \<and>
         (\<forall>regs. fst (post_attendance_log usr now body (db\<lparr>regions := regs\<rparr>)) =
                 fst (post_attendance_log usr now body db))"
proof -
  have p: "policy_regionId body = None"
    using assms(3) by (simp add: policy_regionId_def str_or_null_def)
  have s: "schema_valid (new_AttendanceLog usr now body)"
    using assms(1,4-7) by (rule schema_valid_doc)
  have d: "new_AttendanceLog usr now body =
             \<lparr>userId = u_id usr,
                username = u_name usr,
                employeeId = u_employeeId usr,
                log_type = type body,
                log_location =
                  \<lparr>latitude = latitude (location body),
                   longitude = longitude (location body),
                   accuracy = num_or_zero (accuracy (location body)),
                   altitude = num_or_null (altitude (location body)),
                   heading = num_or_null (heading (location body)),
                   speed = num_or_null (speed (location body))\<rparr>,
                log_regionId = None,
                log_timestamp = (case timestamp body of None \<Rightarrow> now | Some t \<Rightarrow> t),
                log_deviceInfo =
                  (case deviceInfo body of
                     None \<Rightarrow> \<lparr>platform = None, version = None\<rparr>
                   | Some d \<Rightarrow> d),
                log_notes = str_or_null (data_notes body)\<rparr>"
    using assms(3) by (simp add: new_AttendanceLog_def str_or_null_def)
  have f: "fst (save_and_respond doc (db\<lparr>regions := regs\<rparr>)) = fst (save_and_respond doc db)"
    for doc regs
    by (simp add: save_and_respond_def)
  have "status (fst (post_attendance_log usr now body db)) = 201 \<and>
        snd (post_attendance_log usr now body db) =
           db\<lparr>logs := logs db @ [new_AttendanceLog usr now body]\<rparr> \<and>
        res_log (fst (post_attendance_log usr now body db)) =
           Some (last (logs (snd (post_attendance_log usr now body db)))) \<and>
        (\<forall>regs. fst (post_attendance_log usr now body (db\<lparr>regions := regs\<rparr>)) =
                 fst (post_attendance_log usr now body db))"
    unfolding post_valid [OF assms(1)]
    by (simp add: p f save_simps s)
  then show ?thesis unfolding d .
qed

theorem C9_no_region_no_policy_check_witness:
  "status (fst (post_attendance_log employee (Date 1)
      ((geofence_request ''geofence_enter'' ''A'' (at_point 1 1))\<lparr>data_regionId := None\<rparr>)
      backend_AB)) = 201 \<and>
   logs (snd (post_attendance_log employee (Date 1)
      ((geofence_request ''geofence_enter'' ''A'' (at_point 1 1))\<lparr>data_regionId := None\<rparr>)
      backend_AB)) =
     [\<lparr>userId = ''u1'', username = ''Mike Johnson'', employeeId = ''EMP003'',
       log_type = ''geofence_enter'',
       log_location =
         \<lparr>latitude = 1, longitude = 1, accuracy = Num 0, altitude = Null,
          heading = Null, speed = Null\<rparr>,
       log_regionId = None, log_timestamp = Date 0,
       log_deviceInfo = \<lparr>platform = None, version = None\<rparr>, log_notes = None\<rparr>]"
proof -
  let ?body = "(geofence_request ''geofence_enter'' ''A'' (at_point 1 1))\<lparr>data_regionId := None\<rparr>"
  have v: "validation_errors ?body = []"
    by (simp add: validation_errors_def geofence_request_def at_point_fields)
  have t: "type ?body = ''geofence_enter'' \<or> type ?body = ''geofence_exit''"
    by (simp add: geofence_request_def)
  have r: "data_regionId ?body = None" by simp
  have u: "u_id employee \<noteq> []" "u_name employee \<noteq> []" "u_employeeId employee \<noteq> []"
    by (simp_all add: employee_fields)
  have d: "(case timestamp ?body of None \<Rightarrow> Date 1 | Some t \<Rightarrow> t) \<noteq> InvalidDate"
    by (simp add: geofence_request_def)
  show ?thesis
    using C9_no_region_no_policy_check [OF v t r u d, of backend_AB]
    by (simp add: geofence_request_def at_point_def employee_fields backend_AB_def
          num_or_zero_def num_or_null_def str_or_null_def)
qed

section \<open>Properties of the delivery of attendance events\<close>

lemma logAttendance_fails:
  assumes "post (data\<lparr>deviceInfo := Some \<lparr>platform = Some ''mobile'', version = Some ''1.0.0''\<rparr>\<rparr>) w = (Inl e, w')"
  shows "logAttendance post now data (s, w) = (storeFailedRequest now data s, w')"
  using assms by (simp add: logAttendance_def Let_def)

lemma logAttendance_ok:
  assumes "post (data\<lparr>deviceInfo := Some \<lparr>platform = Some ''mobile'', version = Some ''1.0.0''\<rparr>\<rparr>) w = (Inr ok, w')"
  shows "logAttendance post now data (s, w) = (s, w')"
  using assms by (simp add: logAttendance_def Let_def)

lemma storeFailedRequest_list:
  "failedAttendanceRequests (storeFailedRequest now data s) =
     Some ((case failedAttendanceRequests s of None \<Rightarrow> [] | Some rs \<Rightarrow> rs) @ [data\<lparr>failedAt := Some now\<rparr>])"
  by (simp add: storeFailedRequest_def Let_def)

lemma logAttendance_traced:
  "fst (snd (logAttendance (traced post) now data (s, (tr, w)))) =
     tr @ [data\<lparr>deviceInfo := Some \<lparr>platform = Some ''mobile'', version = Some ''1.0.0''\<rparr>\<rparr>]"
  by (simp add: logAttendance_def Let_def traced_def split: prod.splits sum.splits)

lemma retry_loop_traced:
  "fst (snd (retry_loop (traced post) reqs i (tr, w))) = tr @ reqs"
proof (induction reqs arbitrary: i tr w)
  case Nil
  then show ?case by simp
next
  case (Cons r reqs)
  obtain res w' where p: "post r w = (res, w')" by (cases "post r w")
  have t: "traced post r (tr, w) = (res, (tr @ [r], w'))"
    by (simp add: traced_def p)
  show ?case
    by (cases res) (simp_all add: t case_prod_beta Cons.IH)
qed

lemma retry_loop_indices:
  "j \<in> set (fst (retry_loop post reqs i w)) \<Longrightarrow>
     i \<le> j \<and> j < i + length reqs \<and> (\<exists>w0 ok w1. post (reqs ! (j - i)) w0 = (Inr ok, w1))"
proof (induction reqs arbitrary: i w)
  case Nil
  then show ?case by simp
next
  case (Cons r reqs)
  obtain res w' where p: "post r w = (res, w')" by (cases "post r w")
  show ?case
  proof (cases res)
    case (Inl e)
    then have "j \<in> set (fst (retry_loop post reqs (Suc i) w'))"
      using Cons.prems p by simp
    from Cons.IH [OF this] show ?thesis
      by (auto simp: nth_Cons' Suc_diff_Suc)
  next
    case (Inr ok)
    then have "j = i \<or> j \<in> set (fst (retry_loop post reqs (Suc i) w'))"
      using Cons.prems p by (simp add: case_prod_beta)
    then show ?thesis
    proof
      assume "j = i"
      then show ?thesis using p Inr by auto
    next
      assume "j \<in> set (fst (retry_loop post reqs (Suc i) w'))"
      from Cons.IH [OF this] show ?thesis
        by (auto simp: nth_Cons' Suc_diff_Suc)
    qed
  qed
qed

lemma remaining_subseq:
  "subseq (map snd (filter P (enumerate 0 xs))) xs"
proof -
  have "subseq (map snd (filter P (enumerate 0 xs))) (map snd (enumerate 0 xs))"
    by (intro subseq_map subseq_filter_left)
  then show ?thesis by simp
qed

lemma retry_settings:
  assumes "failedAttendanceRequests s = Some stored"
  shows "failedAttendanceRequests (fst (retryFailedRequests post (s, w))) =
     Some (map snd (filter (\<lambda>(i, req). i \<notin> set (fst (retry_loop post stored 0 w)))
                      (enumerate 0 stored)))"
  using assms by (cases stored) (simp_all add: retryFailedRequests_def Let_def case_prod_beta)

lemma retry_trace:
  assumes "failedAttendanceRequests s = Some stored"
  shows "fst (snd (retryFailedRequests (traced post) (s, (tr, w)))) = tr @ stored"
  using assms
  by (cases stored) (simp_all add: retryFailedRequests_def Let_def case_prod_beta retry_loop_traced del: retry_loop.simps)

lemma retry_loop_remaining:
  "map snd (filter (\<lambda>(i, req). i \<notin> set (fst (retry_loop post reqs n w))) (enumerate n reqs)) =
   map fst (filter (\<lambda>(req, res). isl res) (zip reqs (pass_outcomes post reqs w)))"
proof (induction reqs arbitrary: n w)
  case Nil
  then show ?case by simp
next
  case (Cons r reqs)
  obtain res w' where p: "post r w = (res, w')" by (cases "post r w")
  have later: "i \<noteq> n" if "(i, req) \<in> set (enumerate (Suc n) reqs)" for i req
    using that by (auto simp: in_set_enumerate_eq)
  have notin: "n \<notin> set (fst (retry_loop post reqs (Suc n) w'))"
    using retry_loop_indices [of n post reqs "Suc n" w'] by auto
  have f: "filter (\<lambda>a. fst a \<noteq> n \<and> fst a \<notin> set (fst (retry_loop post reqs (Suc n) w')))
             (enumerate (Suc n) reqs) =
           filter (\<lambda>a. fst a \<notin> set (fst (retry_loop post reqs (Suc n) w')))
             (enumerate (Suc n) reqs)"
  proof (rule filter_cong [OF refl])
    fix a assume "a \<in> set (enumerate (Suc n) reqs)"
    then have "fst a \<noteq> n" using later [of "fst a" "snd a"] by simp
    then show "(fst a \<noteq> n \<and> fst a \<notin> set (fst (retry_loop post reqs (Suc n) w'))) =
               (fst a \<notin> set (fst (retry_loop post reqs (Suc n) w')))"
      by simp
  qed
  show ?case
  proof (cases res)
    case (Inl e)
    then show ?thesis
      using Cons.IH [of "Suc n" w'] notin by (simp add: p case_prod_beta)
  next
    case (Inr ok)
    then show ?thesis
      using Cons.IH [of "Suc n" w'] by (simp add: p case_prod_beta f)
  qed
qed

lemma retry_keeps_failed:
  assumes "failedAttendanceRequests s = Some stored"
  shows "failedAttendanceRequests (fst (retryFailedRequests post (s, w))) =
     Some (map fst (filter (\<lambda>(req, res). isl res) (zip stored (pass_outcomes post stored w))))"
  unfolding retry_settings [OF assms] retry_loop_remaining ..

lemma api_post_down:
  "network w = False # rest \<Longrightarrow>
   api_post usr now data w =
     (Inl \<lparr>err_message = ''Network Error'', err_status = None\<rparr>, w\<lparr>network := rest\<rparr>)"
  by (simp add: api_post_def)

lemma api_post_up:
  assumes "network w = [] \<or> (\<exists>rest. network w = True # rest)"
  shows "api_post usr now data w =
     (if 200 \<le> status (fst (post_attendance_log usr now data (server w))) \<and>
         status (fst (post_attendance_log usr now data (server w))) < 300
      then Inr ()
      else Inl \<lparr>err_message = message (fst (post_attendance_log usr now data (server w))),
                err_status = Some (status (fst (post_attendance_log usr now data (server w))))\<rparr>,
      w\<lparr>network := tl (network w), received := received w @ [data],
        server := snd (post_attendance_log usr now data (server w))\<rparr>)"
  using assms by (auto simp: api_post_def case_prod_beta Let_def)

lemma post_accepted:
  assumes "validation_errors body = []" "policy_regionId body = Some rid"
    and "findOne (regions db) rid = Some r" "isUserAllowed r (u_id usr)"
    and "type body = ''geofence_enter'' \<longrightarrow>
           isPointInside r (latitude (location body)) (longitude (location body))"
    and "schema_valid (new_AttendanceLog usr now body)"
  shows "status (fst (post_attendance_log usr now body db)) = 201"
    and "snd (post_attendance_log usr now body db) =
           db\<lparr>logs := logs db @ [new_AttendanceLog usr now body]\<rparr>"
  unfolding post_valid [OF assms(1)] using assms(2-) by (auto simp: save_simps)

lemma post_denied:
  assumes "validation_errors body = []" "policy_regionId body = Some rid"
    and "findOne (regions db) rid = Some r" "\<not> isUserAllowed r (u_id usr)"
  shows "post_attendance_log usr now body db =
           (rejected 403 ''User not allowed in this geofence region'', db)"
  unfolding post_valid [OF assms(1)] using assms(2-) by simp

lemma api_post_403:
  assumes "network w = []" "validation_errors body = []" "policy_regionId body = Some rid"
    and "findOne (regions (server w)) rid = Some r" "\<not> isUserAllowed r (u_id usr)"
  shows "api_post usr now body w =
     (Inl \<lparr>err_message = ''User not allowed in this geofence region'', err_status = Some 403\<rparr>,
      w\<lparr>received := received w @ [body]\<rparr>)"
  using assms(1)
  by (simp add: api_post_up post_denied [OF assms(2-5)] rejected_simps)

lemma api_post_201:
  assumes "network w = []" "validation_errors body = []" "policy_regionId body = Some rid"
    and "findOne (regions (server w)) rid = Some r" "isUserAllowed r (u_id usr)"
    and "type body = ''geofence_enter'' \<longrightarrow>
           isPointInside r (latitude (location body)) (longitude (location body))"
    and "schema_valid (new_AttendanceLog usr now body)"
  shows "api_post usr now body w =
     (Inr (), w\<lparr>received := received w @ [body],
                server := (server w)\<lparr>logs := logs (server w) @ [new_AttendanceLog usr now body]\<rparr>\<rparr>)"
  using assms(1)
  by (simp add: api_post_up post_accepted [OF assms(2-7)])

text \<open>
  Claim C3 fails on the code. The employee is not a member of zone B, so the server
  answers the enter event with 403, a terminal rejection. \<open>logAttendance\<close> stores the
  request in \<open>failedAttendanceRequests\<close>, the one list that holds every failed
  request, without the error; \<open>retryFailedRequests\<close> then sends it again (the server
  receives it a second time), is rejected again, and keeps it in the list for the next
  pass.
\<close>

theorem C3_counterexample:
  "failedAttendanceRequests (fst (retryFailedRequests (api_post employee (Date 2))
      (logAttendance (api_post employee (Date 1)) (Date 1)
         (geofence_request ''geofence_enter'' ''B'' (at_point 0 0))
         (default_settings, world_0)))) =
     Some [(geofence_request ''geofence_enter'' ''B'' (at_point 0 0))\<lparr>failedAt := Some (Date 1)\<rparr>] \<and>
   received (snd (retryFailedRequests (api_post employee (Date 2))
      (logAttendance (api_post employee (Date 1)) (Date 1)
         (geofence_request ''geofence_enter'' ''B'' (at_point 0 0))
         (default_settings, world_0)))) =
     [(geofence_request ''geofence_enter'' ''B'' (at_point 0 0))
        \<lparr>deviceInfo := Some \<lparr>platform = Some ''mobile'', version = Some ''1.0.0''\<rparr>\<rparr>,
      (geofence_request ''geofence_enter'' ''B'' (at_point 0 0))\<lparr>failedAt := Some (Date 1)\<rparr>]"
proof -
  let ?req = "geofence_request ''geofence_enter'' ''B'' (at_point 0 0)"
  let ?sent = "?req\<lparr>deviceInfo := Some \<lparr>platform = Some ''mobile'', version = Some ''1.0.0''\<rparr>\<rparr>"
  let ?stored = "?req\<lparr>failedAt := Some (Date 1)\<rparr>"
  let ?w1 = "world_0\<lparr>network := [], received := [?sent]\<rparr>"
  let ?s1 = "default_settings\<lparr>failedAttendanceRequests := Some [?stored]\<rparr>"
  have n: "\<not> isUserAllowed zone_B (u_id employee)"
    by (simp add: isUserAllowed_def zone_B_fields employee_fields)
  have denied: "post_attendance_log employee now' body backend_AB =
      (rejected 403 ''User not allowed in this geofence region'', backend_AB)"
    if "body = ?sent \<or> body = ?stored" for now' body
    using that
    by (intro post_denied [where rid = "''B''" and r = zone_B])
       (auto simp: request_valid request_valid_deviceInfo policy_regionId_def str_or_null_def
          geofence_request_fields findOne_AB n)
  have w0: "network world_0 = []" "server world_0 = backend_AB" "received world_0 = []"
    by (simp_all add: world_0_def)
  have p1: "api_post employee (Date 1) ?sent world_0 =
      (Inl \<lparr>err_message = ''User not allowed in this geofence region'', err_status = Some 403\<rparr>, ?w1)"
    by (simp add: api_post_up w0 denied rejected_simps; simp add: world_0_def)
  have l1: "logAttendance (api_post employee (Date 1)) (Date 1) ?req (default_settings, world_0) =
      (?s1, ?w1)"
    unfolding logAttendance_fails [where post = "api_post employee (Date 1)" and data = ?req, OF p1]
    by (simp add: storeFailedRequest_def default_settings_def)
  have w1: "network ?w1 = []" "server ?w1 = backend_AB" "received ?w1 = [?sent]"
    by (simp_all add: world_0_def)
  have p2: "api_post employee (Date 2) ?stored ?w1 =
      (Inl \<lparr>err_message = ''User not allowed in this geofence region'', err_status = Some 403\<rparr>,
       ?w1\<lparr>received := [?sent, ?stored]\<rparr>)"
    by (simp add: api_post_up w1 denied rejected_simps; simp add: world_0_def)
  have s1: "failedAttendanceRequests ?s1 = Some [?stored]" by simp
  have r: "retryFailedRequests (api_post employee (Date 2)) (?s1, ?w1) =
      (?s1, ?w1\<lparr>received := [?sent, ?stored]\<rparr>)"
    by (simp add: retryFailedRequests_def p2 Let_def)
  show ?thesis
    unfolding l1 r by simp
qed


text \<open>
  Claim C3, amended. The app does not classify delivery errors and has no dead-letter
  set. A request whose delivery fails, whatever the error, is appended to
  \<open>failedAttendanceRequests\<close> with the time of the failure and without the error;
  \<open>retryFailedRequests\<close> attempts every stored request again; and after the pass the
  list holds exactly the stored requests whose attempt in this pass failed, whatever the
  error, in their stored order.
\<close>

theorem C3_every_failure_stored_and_retried:
  "(post (data\<lparr>deviceInfo := Some \<lparr>platform = Some ''mobile'', version = Some ''1.0.0''\<rparr>\<rparr>) w =
      (Inl e, w') \<longrightarrow>
      failedAttendanceRequests (fst (logAttendance post now data (s, w))) =
        Some ((case failedAttendanceRequests s of None \<Rightarrow> [] | Some rs \<Rightarrow> rs) @
              [data\<lparr>failedAt := Some now\<rparr>])) \<and>
   (failedAttendanceRequests s = Some stored \<longrightarrow>
      set stored \<subseteq> set (fst (snd (retryFailedRequests (traced post) (s, ([], w))))) \<and>
      failedAttendanceRequests (fst (retryFailedRequests post (s, w))) =
        Some (map fst (filter (\<lambda>(req, res). isl res)
                         (zip stored (pass_outcomes post stored w)))))"
proof (intro conjI impI)
  assume "post (data\<lparr>deviceInfo := Some \<lparr>platform = Some ''mobile'', version = Some ''1.0.0''\<rparr>\<rparr>) w =
      (Inl e, w')"
  then show "failedAttendanceRequests (fst (logAttendance post now data (s, w))) =
        Some ((case failedAttendanceRequests s of None \<Rightarrow> [] | Some rs \<Rightarrow> rs) @
              [data\<lparr>failedAt := Some now\<rparr>])"
    by (simp add: logAttendance_fails storeFailedRequest_list)
next
  assume "failedAttendanceRequests s = Some stored"
  then show "set stored \<subseteq> set (fst (snd (retryFailedRequests (traced post) (s, ([], w)))))"
    by (simp add: retry_trace)
next
  assume "failedAttendanceRequests s = Some stored"
  then show "failedAttendanceRequests (fst (retryFailedRequests post (s, w))) =
        Some (map fst (filter (\<lambda>(req, res). isl res)
                         (zip stored (pass_outcomes post stored w))))"
    by (rule retry_keeps_failed)
qed

theorem C3_every_failure_stored_and_retried_witness:
  "failedAttendanceRequests (fst (logAttendance (api_post employee (Date 1)) (Date 1)
      (geofence_request ''geofence_enter'' ''B'' (at_point 0 0)) (default_settings, world_0))) =
     Some [(geofence_request ''geofence_enter'' ''B'' (at_point 0 0))\<lparr>failedAt := Some (Date 1)\<rparr>] \<and>
   failedAttendanceRequests (fst (retryFailedRequests (api_post employee (Date 2))
      (default_settings\<lparr>failedAttendanceRequests :=
         Some [geofence_request ''geofence_enter'' ''A'' (at_point 0 0),
               geofence_request ''geofence_enter'' ''B'' (at_point 0 0)]\<rparr>, world_0))) =
     Some [geofence_request ''geofence_enter'' ''B'' (at_point 0 0)]"
proof -
  let ?A = "geofence_request ''geofence_enter'' ''A'' (at_point 0 0)"
  let ?B = "geofence_request ''geofence_enter'' ''B'' (at_point 0 0)"
  let ?dev = "Some \<lparr>platform = Some ''mobile'', version = Some ''1.0.0''\<rparr>"
  let ?s = "default_settings\<lparr>failedAttendanceRequests := Some [?A, ?B]\<rparr>"
  let ?wA = "world_0\<lparr>received := received world_0 @ [?A],
     server := (server world_0)\<lparr>logs := logs (server world_0) @
        [new_AttendanceLog employee (Date 2) ?A]\<rparr>\<rparr>"
  have net: "network world_0 = []" "network ?wA = []" by (simp_all add: world_0_def)
  have fA: "findOne (regions (server world_0)) ''A'' = Some zone_A"
    by (simp add: world_0_def findOne_AB)
  have fB: "findOne (regions (server world_0)) ''B'' = Some zone_B"
       "findOne (regions (server ?wA)) ''B'' = Some zone_B"
    by (simp_all add: world_0_def findOne_AB)
  have nB: "\<not> isUserAllowed zone_B (u_id employee)"
    by (simp add: isUserAllowed_def zone_B_fields employee_fields)
  have aA: "isUserAllowed zone_A (u_id employee)"
    by (simp add: isUserAllowed_def zone_A_fields)
  have vB: "validation_errors ?B = []" "validation_errors (?B\<lparr>deviceInfo := ?dev\<rparr>) = []"
    by (simp_all add: request_valid request_valid_deviceInfo)
  have pB: "policy_regionId ?B = Some ''B''" "policy_regionId (?B\<lparr>deviceInfo := ?dev\<rparr>) = Some ''B''"
    by (simp_all add: policy_regionId_def str_or_null_def geofence_request_def)
  have vA: "validation_errors ?A = []" by (simp add: request_valid)
  have pA: "policy_regionId ?A = Some ''A''"
    by (simp add: policy_regionId_def str_or_null_def geofence_request_def)
  have iA: "type ?A = ''geofence_enter'' \<longrightarrow>
      isPointInside zone_A (latitude (location ?A)) (longitude (location ?A))"
    using center_inside by (simp add: isPointInside_inside_zone geofence_request_fields)
  have sA: "schema_valid (new_AttendanceLog employee (Date 2) ?A)"
    by (simp add: request_schema_valid)
  note first = api_post_403 [OF net(1) vB(2) pB(2) fB(1) nB, of "Date 1"]
  note postA = api_post_201 [OF net(1) vA pA fA aA iA sA]
  note postB = api_post_403 [OF net(2) vB(1) pB(1) fB(2) nB, of "Date 2"]
  have out: "pass_outcomes (api_post employee (Date 2)) [?A, ?B] world_0 =
      [Inr (), Inl \<lparr>err_message = ''User not allowed in this geofence region'',
                     err_status = Some 403\<rparr>]"
    by (simp add: postA postB)
  have s: "failedAttendanceRequests ?s = Some [?A, ?B]" by simp
  have d: "failedAttendanceRequests default_settings = None"
    by (simp add: default_settings_def)
  let ?e = "\<lparr>err_message = ''User not allowed in this geofence region'', err_status = Some 403\<rparr>"
  let ?w' = "world_0\<lparr>received := received world_0 @ [?B\<lparr>deviceInfo := ?dev\<rparr>]\<rparr>"
  have c1: "failedAttendanceRequests (fst (logAttendance (api_post employee (Date 1)) (Date 1)
      ?B (default_settings, world_0))) = Some [?B\<lparr>failedAt := Some (Date 1)\<rparr>]"
    using C3_every_failure_stored_and_retried
       [of "api_post employee (Date 1)" ?B world_0 ?e ?w' "Date 1" default_settings "[]"]
      first d
    by simp
  have c2: "failedAttendanceRequests (fst (retryFailedRequests (api_post employee (Date 2))
      (?s, world_0))) = Some [?B]"
    using C3_every_failure_stored_and_retried
       [of "api_post employee (Date 2)" ?B world_0 ?e ?w' "Date 2" ?s "[?A, ?B]"]
      s out
    by simp
  show ?thesis using c1 c2 by simp
qed

text \<open>
  Claim C4 fails on the code. The network is down when the app enters zone A at time 1:
  the enter event is stored for retry. At time 2 the network is up and the app leaves
  the zone: \<open>logAttendance\<close> sends the exit event at once, and the server records it.
  The retry pass then delivers the stored enter event. The server has recorded the exit
  before the enter that preceded it, and the earlier event was neither acknowledged nor
  set aside when the later one was delivered.
\<close>

theorem C4_counterexample:
  "map log_type
     (logs (server (snd
        (retryFailedRequests (api_post employee (Date 3))
          (handleGeofenceEvent (api_post employee (Date 2)) (Date 2)
             \<lparr>eventType = Exit, region = zone_A, sample = at_point 1 1\<rparr>
             (handleGeofenceEvent (api_post employee (Date 1)) (Date 1)
                \<lparr>eventType = Enter, region = zone_A, sample = at_point 0 0\<rparr>
                (default_settings, world_0\<lparr>network := [False]\<rparr>))))))) =
     [''geofence_exit'', ''geofence_enter''] \<and>
   map log_timestamp
     (logs (server (snd
        (retryFailedRequests (api_post employee (Date 3))
          (handleGeofenceEvent (api_post employee (Date 2)) (Date 2)
             \<lparr>eventType = Exit, region = zone_A, sample = at_point 1 1\<rparr>
             (handleGeofenceEvent (api_post employee (Date 1)) (Date 1)
                \<lparr>eventType = Enter, region = zone_A, sample = at_point 0 0\<rparr>
                (default_settings, world_0\<lparr>network := [False]\<rparr>))))))) =
     [Date 2, Date 1]"
proof -
  let ?dev = "Some \<lparr>platform = Some ''mobile'', version = Some ''1.0.0''\<rparr>"
  let ?enter = "(geofence_request ''geofence_enter'' ''A'' (at_point 0 0))\<lparr>timestamp := Some (Date 1)\<rparr>"
  let ?exit = "(geofence_request ''geofence_exit'' ''A'' (at_point 1 1))\<lparr>timestamp := Some (Date 2)\<rparr>"
  let ?stored = "?enter\<lparr>failedAt := Some (Date 1)\<rparr>"
  let ?s1 = "default_settings\<lparr>failedAttendanceRequests := Some [?stored]\<rparr>"
  let ?w1 = "world_0\<lparr>network := []\<rparr>"
  let ?doc2 = "new_AttendanceLog employee (Date 2) (?exit\<lparr>deviceInfo := ?dev\<rparr>)"
  let ?doc3 = "new_AttendanceLog employee (Date 3) ?stored"
  let ?w2 = "world_0\<lparr>network := [], received := [?exit\<lparr>deviceInfo := ?dev\<rparr>],
               server := backend_AB\<lparr>logs := [?doc2]\<rparr>\<rparr>"
  let ?w3 = "world_0\<lparr>network := [], received := [?exit\<lparr>deviceInfo := ?dev\<rparr>, ?stored],
               server := backend_AB\<lparr>logs := [?doc2, ?doc3]\<rparr>\<rparr>"
  have h1: "handleGeofenceEvent post now' \<lparr>eventType = Enter, region = zone_A, sample = at_point 0 0\<rparr> sw =
      logAttendance post now' ((geofence_request ''geofence_enter'' ''A'' (at_point 0 0))\<lparr>timestamp := Some now'\<rparr>) sw"
    for post :: "world api_post" and now' sw
    by (simp add: handleGeofenceEvent_def geofence_request_def at_point_def zone_A_fields)
  have h2: "handleGeofenceEvent post now' \<lparr>eventType = Exit, region = zone_A, sample = at_point 1 1\<rparr> sw =
      logAttendance post now' ((geofence_request ''geofence_exit'' ''A'' (at_point 1 1))\<lparr>timestamp := Some now'\<rparr>) sw"
    for post :: "world api_post" and now' sw
    by (simp add: handleGeofenceEvent_def geofence_request_def at_point_def zone_A_fields)
  have allowed: "isUserAllowed zone_A (u_id employee)"
    by (simp add: isUserAllowed_def zone_A_fields)
  have p1: "api_post employee (Date 1) (?enter\<lparr>deviceInfo := ?dev\<rparr>) (world_0\<lparr>network := [False]\<rparr>) =
      (Inl \<lparr>err_message = ''Network Error'', err_status = None\<rparr>, ?w1)"
    by (simp add: api_post_down)
  have l1: "logAttendance (api_post employee (Date 1)) (Date 1) ?enter
       (default_settings, world_0\<lparr>network := [False]\<rparr>) = (?s1, ?w1)"
    unfolding logAttendance_fails [where post = "api_post employee (Date 1)" and data = ?enter, OF p1]
    by (simp add: storeFailedRequest_def default_settings_def)
  have v2: "validation_errors (?exit\<lparr>deviceInfo := ?dev\<rparr>) = []"
    by (simp add: validation_errors_def geofence_request_def at_point_def)
  have pol2: "policy_regionId (?exit\<lparr>deviceInfo := ?dev\<rparr>) = Some ''A''"
    by (simp add: policy_regionId_def str_or_null_def geofence_request_def)
  have f0: "findOne (regions backend_AB) ''A'' = Some zone_A"
    by (simp add: findOne_AB)
  have e2: "type (?exit\<lparr>deviceInfo := ?dev\<rparr>) = ''geofence_enter'' \<longrightarrow>
      isPointInside zone_A (latitude (location (?exit\<lparr>deviceInfo := ?dev\<rparr>)))
        (longitude (location (?exit\<lparr>deviceInfo := ?dev\<rparr>)))"
    by (simp add: geofence_request_def)
  have sv2: "schema_valid ?doc2"
    by (rule schema_valid_doc [OF v2]) (simp_all add: employee_fields geofence_request_def)
  note a2 = post_accepted [OF v2 pol2 f0 allowed e2 sv2]
  have w1: "network ?w1 = []" "server ?w1 = backend_AB" "received ?w1 = []"
    by (simp_all add: world_0_def)
  have p2: "api_post employee (Date 2) (?exit\<lparr>deviceInfo := ?dev\<rparr>) ?w1 = (Inr (), ?w2)"
    by (simp add: api_post_up w1 a2; simp add: world_0_def backend_AB_def)
  have l2: "logAttendance (api_post employee (Date 2)) (Date 2) ?exit (?s1, ?w1) = (?s1, ?w2)"
    by (rule logAttendance_ok [where post = "api_post employee (Date 2)" and data = ?exit, OF p2])
  have v3: "validation_errors ?stored = []"
    by (simp add: validation_errors_def geofence_request_def at_point_def)
  have i3: "isPointInside zone_A (latitude (location ?stored)) (longitude (location ?stored))"
    using center_inside by (simp add: isPointInside_inside_zone geofence_request_def)
  have f3: "findOne (regions (backend_AB\<lparr>logs := [?doc2]\<rparr>)) ''A'' = Some zone_A"
    by (simp add: findOne_AB)
  have pol3: "policy_regionId ?stored = Some ''A''"
    by (simp add: policy_regionId_def str_or_null_def geofence_request_def)
  have e3: "type ?stored = ''geofence_enter'' \<longrightarrow>
      isPointInside zone_A (latitude (location ?stored)) (longitude (location ?stored))"
    using i3 by simp
  have sv3: "schema_valid ?doc3"
    by (rule schema_valid_doc [OF v3]) (simp_all add: employee_fields geofence_request_def)
  note a3 = post_accepted [OF v3 pol3 f3 allowed e3 sv3]
  have w2: "network ?w2 = []" "server ?w2 = backend_AB\<lparr>logs := [?doc2]\<rparr>"
       "received ?w2 = [?exit\<lparr>deviceInfo := ?dev\<rparr>]"
    by simp_all
  have p3: "api_post employee (Date 3) ?stored ?w2 = (Inr (), ?w3)"
    by (simp add: api_post_up w2 a3; simp add: world_0_def backend_AB_def)
  have r: "retryFailedRequests (api_post employee (Date 3)) (?s1, ?w2) =
      (?s1\<lparr>failedAttendanceRequests := Some []\<rparr>, ?w3)"
    by (simp add: retryFailedRequests_def p3 Let_def)
  have t: "map log_type [?doc2, ?doc3] = [''geofence_exit'', ''geofence_enter'']"
    "map log_timestamp [?doc2, ?doc3] = [Date 2, Date 1]"
    by (simp_all add: new_AttendanceLog_def geofence_request_def)
  show ?thesis
    unfolding h1 h2 l1 l2 r using t by simp
qed


text \<open>
  Claim C4, amended. \<open>logAttendance\<close> submits a new event at once, as the next
  request after all earlier ones, whatever earlier events (of the same zone or not) are
  still stored in \<open>failedAttendanceRequests\<close>. Within one pass of
  \<open>retryFailedRequests\<close> the stored requests are attempted in the order in which
  they were stored, and the requests that remain stored keep their relative order. The
  order between a new event and an earlier stored one is not preserved.
\<close>

theorem C4_attempts_in_call_order:
  "fst (snd (logAttendance (traced post) now data (s, (tr, w)))) =
     tr @ [data\<lparr>deviceInfo := Some \<lparr>platform = Some ''mobile'', version = Some ''1.0.0''\<rparr>\<rparr>] \<and>
   (failedAttendanceRequests s = Some stored \<longrightarrow>
      fst (snd (retryFailedRequests (traced post) (s, (tr, w)))) = tr @ stored \<and>
      (\<exists>remaining.
         failedAttendanceRequests (fst (retryFailedRequests post (s, w))) = Some remaining \<and>
         subseq remaining stored))"
  by (simp add: logAttendance_traced retry_trace retry_settings remaining_subseq)

theorem C4_attempts_in_call_order_witness:
  "fst (snd (retryFailedRequests (traced always_403)
      (default_settings\<lparr>failedAttendanceRequests :=
          Some [geofence_request ''geofence_enter'' ''A'' (at_point 0 0),
                geofence_request ''geofence_exit'' ''A'' (at_point 1 1)]\<rparr>, ([], ())))) =
     [geofence_request ''geofence_enter'' ''A'' (at_point 0 0),
      geofence_request ''geofence_exit'' ''A'' (at_point 1 1)]"
  using C4_attempts_in_call_order
     [of always_403 _ _
        "default_settings\<lparr>failedAttendanceRequests :=
          Some [geofence_request ''geofence_enter'' ''A'' (at_point 0 0),
                geofence_request ''geofence_exit'' ''A'' (at_point 1 1)]\<rparr>"
        "[]" "()"
        "[geofence_request ''geofence_enter'' ''A'' (at_point 0 0),
          geofence_request ''geofence_exit'' ''A'' (at_point 1 1)]"]
  by simp

end
